theory Spec2Isabelle
  imports Complex_Main
begin

section \<open>JavaScript numbers\<close>

text \<open>
  A JavaScript number is modelled as a real number or one of the three special values
  of IEEE 754 arithmetic. Arithmetic on finite values is exact (rounding and overflow
  of binary64 are not modelled); the special values follow the IEEE rules that
  JavaScript uses: \<open>0/0\<close>, \<open>Infinity - Infinity\<close> and \<open>0 * Infinity\<close> are NaN, NaN
  is absorbing, every comparison with NaN is false. The two zeros are not
  distinguished: \<open>Fin 0\<close> is read as \<open>+0\<close>.
\<close>

datatype jsnum = Fin real | PInf | NInf | NaN

text \<open>
  Division: a finite quotient where the divisor is not zero; \<open>0/0\<close> is NaN and a
  non-zero number over zero an infinity of the sign of the numerator.
\<close>

fun jdiv :: "jsnum \<Rightarrow> jsnum \<Rightarrow> jsnum" where
  "jdiv (Fin a) (Fin b) =
     (if b \<noteq> 0 then Fin (a / b)
      else if a = 0 then NaN else if 0 < a then PInf else NInf)"
| "jdiv (Fin a) PInf = Fin 0"
| "jdiv (Fin a) NInf = Fin 0"
| "jdiv (Fin a) NaN = NaN"
| "jdiv PInf (Fin b) = (if 0 \<le> b then PInf else NInf)"
| "jdiv PInf PInf = NaN"
| "jdiv PInf NInf = NaN"
| "jdiv PInf NaN = NaN"
| "jdiv NInf (Fin b) = (if 0 \<le> b then NInf else PInf)"
| "jdiv NInf PInf = NaN"
| "jdiv NInf NInf = NaN"
| "jdiv NInf NaN = NaN"
| "jdiv NaN b = NaN"

instantiation jsnum :: "{plus,minus,times,uminus,inverse}"
begin

fun uminus_jsnum :: "jsnum \<Rightarrow> jsnum" where
  "- Fin a = Fin (- a)"
| "- PInf = NInf"
| "- NInf = PInf"
| "- NaN = NaN"

fun plus_jsnum :: "jsnum \<Rightarrow> jsnum \<Rightarrow> jsnum" where
  "Fin a + Fin b = Fin (a + b)"
| "Fin a + PInf = PInf"
| "Fin a + NInf = NInf"
| "Fin a + NaN = NaN"
| "PInf + Fin b = PInf"
| "PInf + PInf = PInf"
| "PInf + NInf = NaN"
| "PInf + NaN = NaN"
| "NInf + Fin b = NInf"
| "NInf + PInf = NaN"
| "NInf + NInf = NInf"
| "NInf + NaN = NaN"
| "NaN + b = NaN"

definition minus_jsnum :: "jsnum \<Rightarrow> jsnum \<Rightarrow> jsnum" where
  "minus_jsnum a b = a + (- b)"

fun times_jsnum :: "jsnum \<Rightarrow> jsnum \<Rightarrow> jsnum" where
  "Fin a * Fin b = Fin (a * b)"
| "Fin a * PInf = (if a = 0 then NaN else if 0 < a then PInf else NInf)"
| "Fin a * NInf = (if a = 0 then NaN else if 0 < a then NInf else PInf)"
| "Fin a * NaN = NaN"
| "PInf * Fin b = (if b = 0 then NaN else if 0 < b then PInf else NInf)"
| "PInf * PInf = PInf"
| "PInf * NInf = NInf"
| "PInf * NaN = NaN"
| "NInf * Fin b = (if b = 0 then NaN else if 0 < b then NInf else PInf)"
| "NInf * PInf = NInf"
| "NInf * NInf = PInf"
| "NInf * NaN = NaN"
| "NaN * b = NaN"

definition divide_jsnum :: "jsnum \<Rightarrow> jsnum \<Rightarrow> jsnum" where
  "divide_jsnum a b = jdiv a b"

definition inverse_jsnum :: "jsnum \<Rightarrow> jsnum" where
  "inverse_jsnum a = jdiv (Fin 1) a"

instance ..

end

text \<open>The comparison operators \<open><\<close> and \<open>></\<close> of the language: false when either side is NaN.\<close>

fun jlt :: "jsnum \<Rightarrow> jsnum \<Rightarrow> bool" where
  "jlt (Fin a) (Fin b) = (a < b)"
| "jlt (Fin a) PInf = True"
| "jlt NInf (Fin b) = True"
| "jlt NInf PInf = True"
| "jlt a b = False"

definition jgt :: "jsnum \<Rightarrow> jsnum \<Rightarrow> bool" where
  "jgt a b = jlt b a"

fun isNaN :: "jsnum \<Rightarrow> bool" where
  "isNaN NaN = True"
| "isNaN a = False"

text \<open>Truthiness of a number, as \<open>x || y\<close> tests it: zero and NaN are falsy.\<close>

fun truthy :: "jsnum \<Rightarrow> bool" where
  "truthy (Fin a) = (a \<noteq> 0)"
| "truthy NaN = False"
| "truthy a = True"

text \<open>\<open>Math.sqrt\<close>.\<close>

fun Math_sqrt :: "jsnum \<Rightarrow> jsnum" where
  "Math_sqrt (Fin a) = (if a < 0 then NaN else Fin (sqrt a))"
| "Math_sqrt PInf = PInf"
| "Math_sqrt NInf = NaN"
| "Math_sqrt NaN = NaN"

fun isInf :: "jsnum \<Rightarrow> bool" where
  "isInf PInf = True"
| "isInf NInf = True"
| "isInf a = False"

text \<open>
  \<open>Math.hypot\<close> of three arguments: \<open>+Infinity\<close> when an argument is infinite, else NaN
  when one is NaN, else the square root of the sum of squares.
\<close>

definition Math_hypot :: "jsnum \<Rightarrow> jsnum \<Rightarrow> jsnum \<Rightarrow> jsnum" where
  "Math_hypot x y z =
     (if isInf x \<or> isInf y \<or> isInf z then PInf
      else case (x, y, z) of
        (Fin a, Fin b, Fin c) \<Rightarrow> Fin (sqrt (a * a + b * b + c * c))
      | _ \<Rightarrow> NaN)"

text \<open>
  \<open>Math.min\<close> and \<open>Math.max\<close> of a spread list: NaN when an argument is NaN;
  \<open>+Infinity\<close> and \<open>-Infinity\<close> for no argument.
\<close>

fun jmin :: "jsnum \<Rightarrow> jsnum \<Rightarrow> jsnum" where
  "jmin NaN b = NaN"
| "jmin a NaN = NaN"
| "jmin a b = (if jlt b a then b else a)"

fun jmax :: "jsnum \<Rightarrow> jsnum \<Rightarrow> jsnum" where
  "jmax NaN b = NaN"
| "jmax a NaN = NaN"
| "jmax a b = (if jlt a b then b else a)"

definition Math_min :: "jsnum list \<Rightarrow> jsnum" where
  "Math_min xs = foldl jmin PInf xs"

definition Math_max :: "jsnum list \<Rightarrow> jsnum" where
  "Math_max xs = foldl jmax NInf xs"

section \<open>Vectors and 3x3 matrices (pubchemtest/index.js)\<close>

text \<open>
  A point or vector is a three-element array, a matrix an array of three rows.
\<close>

type_synonym vec = "jsnum \<times> jsnum \<times> jsnum"
type_synonym mat = "vec \<times> vec \<times> vec"

definition vmap :: "(jsnum \<Rightarrow> jsnum) \<Rightarrow> vec \<Rightarrow> vec" where
  "vmap f v = (case v of (x, y, z) \<Rightarrow> (f x, f y, f z))"

definition dot :: "vec \<Rightarrow> vec \<Rightarrow> jsnum" where
  "dot a b = (case a of (a0, a1, a2) \<Rightarrow> case b of (b0, b1, b2) \<Rightarrow>
     a0 * b0 + a1 * b1 + a2 * b2)"

definition multiplyMatrixVec :: "mat \<Rightarrow> vec \<Rightarrow> vec" where
  "multiplyMatrixVec M v =
     (case M of ((m00, m01, m02), (m10, m11, m12), (m20, m21, m22)) \<Rightarrow>
      case v of (v0, v1, v2) \<Rightarrow>
        (m00 * v0 + m01 * v1 + m02 * v2,
         m10 * v0 + m11 * v1 + m12 * v2,
         m20 * v0 + m21 * v1 + m22 * v2))"

text \<open>\<open>transpose\<close>, on a 3x3 matrix.\<close>

definition transpose3 :: "mat \<Rightarrow> mat" where
  "transpose3 A =
     (case A of ((a00, a01, a02), (a10, a11, a12), (a20, a21, a22)) \<Rightarrow>
        ((a00, a10, a20), (a01, a11, a21), (a02, a12, a22)))"

text \<open>
  \<open>multiplyMatrices\<close>: every entry starts at \<open>0\<close> and accumulates the three products
  \<open>A[i][k] * B[k][j]\<close> for \<open>k = 0, 1, 2\<close>.
\<close>

definition rowTimes :: "vec \<Rightarrow> mat \<Rightarrow> vec" where
  "rowTimes r B =
     (case r of (r0, r1, r2) \<Rightarrow>
      case B of ((b00, b01, b02), (b10, b11, b12), (b20, b21, b22)) \<Rightarrow>
        (Fin 0 + r0 * b00 + r1 * b10 + r2 * b20,
         Fin 0 + r0 * b01 + r1 * b11 + r2 * b21,
         Fin 0 + r0 * b02 + r1 * b12 + r2 * b22))"

definition multiplyMatrices :: "mat \<Rightarrow> mat \<Rightarrow> mat" where
  "multiplyMatrices A B =
     (case A of (r0, r1, r2) \<Rightarrow> (rowTimes r0 B, rowTimes r1 B, rowTimes r2 B))"

text \<open>\<open>centroid\<close>: component sums from \<open>[0, 0, 0]\<close>, each divided by the number of points.\<close>

definition vadd :: "vec \<Rightarrow> vec \<Rightarrow> vec" where
  "vadd a b = (case a of (a0, a1, a2) \<Rightarrow> case b of (b0, b1, b2) \<Rightarrow>
     (a0 + b0, a1 + b1, a2 + b2))"

definition vsub :: "vec \<Rightarrow> vec \<Rightarrow> vec" where
  "vsub a b = (case a of (a0, a1, a2) \<Rightarrow> case b of (b0, b1, b2) \<Rightarrow>
     (a0 - b0, a1 - b1, a2 - b2))"

definition zeroVec :: vec where
  "zeroVec = (Fin 0, Fin 0, Fin 0)"

definition centroid :: "vec list \<Rightarrow> vec" where
  "centroid points =
     (let n = Fin (real (length points));
          sum = foldl vadd zeroVec points
      in vmap (\<lambda>s. s / n) sum)"

section \<open>The approximate eigen-decomposition and SVD\<close>

text \<open>
  The inner loop of \<open>eigenSymmetric\<close>: \<open>v = A v\<close>, then \<open>v\<close> divided by its \<open>Math.hypot\<close>
  norm, a fixed number of times.
\<close>

fun powerIterate :: "nat \<Rightarrow> mat \<Rightarrow> vec \<Rightarrow> vec" where
  "powerIterate 0 A v = v"
| "powerIterate (Suc i) A v =
     (let w = multiplyMatrixVec A v;
          norm = (case w of (x, y, z) \<Rightarrow> Math_hypot x y z)
      in powerIterate i A (vmap (\<lambda>x. x / norm) w))"

text \<open>The deflation \<open>A[i][j] -= \<lambda> * v[i] * v[j]\<close> over all nine entries.\<close>

definition deflate :: "mat \<Rightarrow> jsnum \<Rightarrow> vec \<Rightarrow> mat" where
  "deflate A l v =
     (case A of ((a00, a01, a02), (a10, a11, a12), (a20, a21, a22)) \<Rightarrow>
      case v of (v0, v1, v2) \<Rightarrow>
        ((a00 - l * v0 * v0, a01 - l * v0 * v1, a02 - l * v0 * v2),
         (a10 - l * v1 * v0, a11 - l * v1 * v1, a12 - l * v1 * v2),
         (a20 - l * v2 * v0, a21 - l * v2 * v1, a22 - l * v2 * v2)))"

text \<open>
  One pass of the loop over \<open>k\<close>: the start vector is three draws of \<open>Math.random()\<close>,
  here the next three values of the sequence \<open>rnd\<close>; 15 power iterations; the Rayleigh
  quotient as eigenvalue; deflation. The result is the eigenvector, the eigenvalue and
  the deflated working matrix.
\<close>

definition eigenPass :: "(nat \<Rightarrow> jsnum) \<Rightarrow> nat \<Rightarrow> mat \<Rightarrow> vec \<times> jsnum \<times> mat" where
  "eigenPass rnd k A =
     (let v = powerIterate 15 A (rnd (3 * k), rnd (3 * k + 1), rnd (3 * k + 2));
          Av = multiplyMatrixVec A v;
          l = dot v Av
      in (v, l, deflate A l v))"

text \<open>
  \<open>eigenSymmetric\<close>: the three passes \<open>k = 0, 1, 2\<close>, each on the matrix the previous
  one deflated; the eigenvectors and eigenvalues in the order they were pushed.
\<close>

definition eigenSymmetric :: "(nat \<Rightarrow> jsnum) \<Rightarrow> mat \<Rightarrow> mat \<times> vec" where
  "eigenSymmetric rnd M =
     (case eigenPass rnd 0 M of (v0, l0, A1) \<Rightarrow>
      case eigenPass rnd 1 A1 of (v1, l1, A2) \<Rightarrow>
      case eigenPass rnd 2 A2 of (v2, l2, A3) \<Rightarrow>
        ((v0, v1, v2), (l0, l1, l2)))"

text \<open>Reading a three-element array at an index (\<open>0\<close>, \<open>1\<close> or \<open>2\<close>).\<close>

fun at3 :: "'a \<times> 'a \<times> 'a \<Rightarrow> nat \<Rightarrow> 'a" where
  "at3 (a, b, c) i = (if i = 0 then a else if i = 1 then b else c)"

text \<open>
  \<open>[0,1,2].sort(cmp)\<close> as an insertion sort: each element moves left past the
  elements \<open>x\<close> before it with \<open>cmp(x, element) > 0\<close>. For a comparator that is a
  consistent order this is the sorted array (the sort is stable); where the comparator
  returns NaN the language leaves the order to the implementation, and NaN counts as
  \<open>0\<close> here.
\<close>

definition sort3 :: "(nat \<Rightarrow> nat \<Rightarrow> jsnum) \<Rightarrow> nat \<times> nat \<times> nat \<Rightarrow> nat \<times> nat \<times> nat" where
  "sort3 cmp xs =
     (case xs of (a, b, c) \<Rightarrow>
      case (if jgt (cmp a b) (Fin 0) then (b, a) else (a, b)) of (p, q) \<Rightarrow>
        if jgt (cmp q c) (Fin 0)
        then (if jgt (cmp p c) (Fin 0) then (c, p, q) else (p, c, q))
        else (p, q, c))"

text \<open>
  \<open>Vt.map((v,i) => v.map(x => x / (S[i] || 1e-12)))\<close>: a singular value that is zero
  or NaN is replaced by \<open>1e-12\<close>.
\<close>

definition scaleRows :: "mat \<Rightarrow> vec \<Rightarrow> mat" where
  "scaleRows Vt S =
     (case Vt of (w0, w1, w2) \<Rightarrow> case S of (s0, s1, s2) \<Rightarrow>
        (vmap (\<lambda>x. x / (if truthy s0 then s0 else Fin (1 / 10 ^ 12))) w0,
         vmap (\<lambda>x. x / (if truthy s1 then s1 else Fin (1 / 10 ^ 12))) w1,
         vmap (\<lambda>x. x / (if truthy s2 then s2 else Fin (1 / 10 ^ 12))) w2))"

text \<open>\<open>svd3x3(M)\<close>: the result is the triple \<open>(U, S, Vt)\<close>.\<close>

definition svd3x3 :: "(nat \<Rightarrow> jsnum) \<Rightarrow> mat \<Rightarrow> mat \<times> vec \<times> mat" where
  "svd3x3 rnd M =
     (let MtM = multiplyMatrices (transpose3 M) M in
      case eigenSymmetric rnd MtM of (V, Svals) \<Rightarrow>
      case sort3 (\<lambda>a b. at3 Svals b - at3 Svals a) (0, 1, 2) of (o0, o1, o2) \<Rightarrow>
        let S = (Math_sqrt (at3 Svals o0), Math_sqrt (at3 Svals o1), Math_sqrt (at3 Svals o2));
            Vt = (at3 V o0, at3 V o1, at3 V o2);
            VinvS = scaleRows Vt S;
            U = multiplyMatrices M (transpose3 VinvS)
        in (U, S, Vt))"

section \<open>Rigid alignment\<close>

text \<open>
  The exceptions of the code: a TypeError of the language, the rejected lookup of a
  compound name, and the three errors \<open>getMoleculePoints\<close> throws itself
  (\<open>Unable to download SDF\<close>, \<open>SDF too short\<close>, \<open>Parsed zero atoms\<close>).
\<close>

datatype js_error =
    TypeError
  | LookupFailed
  | DownloadFailed
  | SdfTooShort
  | ParsedZeroAtoms

definition identityMat :: mat where
  "identityMat = ((Fin 1, Fin 0, Fin 0), (Fin 0, Fin 1, Fin 0), (Fin 0, Fin 0, Fin 1))"

definition zeroMat :: mat where
  "zeroMat = (zeroVec, zeroVec, zeroVec)"

text \<open>The vector and the matrix all of whose entries are NaN.\<close>

definition nanVec :: vec where
  "nanVec = (NaN, NaN, NaN)"

definition nanMat :: mat where
  "nanMat = (nanVec, nanVec, nanVec)"

text \<open>The determinant as \<open>computeAlignment\<close> writes it out.\<close>

definition det3 :: "mat \<Rightarrow> jsnum" where
  "det3 R =
     (case R of ((r00, r01, r02), (r10, r11, r12), (r20, r21, r22)) \<Rightarrow>
        r00 * (r11 * r22 - r12 * r21) -
        r01 * (r10 * r22 - r12 * r20) +
        r02 * (r10 * r21 - r11 * r20))"

text \<open>One step \<open>i\<close> of the covariance loop: \<open>H[r][c] += A[i][r] * B[i][c]\<close>.\<close>

definition covStep :: "mat \<Rightarrow> vec \<times> vec \<Rightarrow> mat" where
  "covStep H ab =
     (case H of ((h00, h01, h02), (h10, h11, h12), (h20, h21, h22)) \<Rightarrow>
      case ab of ((a0, a1, a2), (b0, b1, b2)) \<Rightarrow>
        ((h00 + a0 * b0, h01 + a0 * b1, h02 + a0 * b2),
         (h10 + a1 * b0, h11 + a1 * b1, h12 + a1 * b2),
         (h20 + a2 * b0, h21 + a2 * b1, h22 + a2 * b2)))"

text \<open>The covariance loop: \<open>H\<close> starts at zero and takes one step per index \<open>i\<close>.\<close>

definition covariance :: "vec list \<Rightarrow> vec list \<Rightarrow> mat" where
  "covariance A B = foldl covStep zeroMat (zip A B)"

text \<open>The reflection case: the last row of \<open>Vt\<close> is negated.\<close>

definition negateLast :: "mat \<Rightarrow> mat" where
  "negateLast Vt = (case Vt of (w0, w1, w2) \<Rightarrow> (w0, w1, vmap uminus w2))"

text \<open>
  The rotation \<open>R = multiplyMatrices(Vt, transpose(U))\<close>, recomputed with the last row
  of \<open>Vt\<close> negated when its determinant is negative.
\<close>

definition rotationOf :: "mat \<Rightarrow> mat \<Rightarrow> mat" where
  "rotationOf U Vt =
     (let R = multiplyMatrices Vt (transpose3 U);
          det = det3 R
      in if jlt det (Fin 0) then multiplyMatrices (negateLast Vt) (transpose3 U) else R)"

text \<open>
  \<open>computeAlignment(pointsA, pointsB)\<close>. The loop over \<open>i < pointsA.length\<close> reads
  \<open>B[i][c]\<close>, which throws a TypeError when \<open>pointsB\<close> is the shorter list. The result
  is the pair \<open>(R, t)\<close>.
\<close>

definition computeAlignment ::
  "(nat \<Rightarrow> jsnum) \<Rightarrow> vec list \<Rightarrow> vec list \<Rightarrow> js_error + (mat \<times> vec)" where
  "computeAlignment rnd pointsA pointsB =
     (let n = length pointsA in
      if n = 0 then Inr (identityMat, zeroVec)
      else
        let cA = centroid pointsA;
            cB = centroid pointsB;
            A = map (\<lambda>p. vsub p cA) pointsA;
            B = map (\<lambda>p. vsub p cB) pointsB
        in if length B < n then Inl TypeError
           else
             let H = covariance A B in
             case svd3x3 rnd H of (U, S, Vt) \<Rightarrow>
               let R = rotationOf U Vt;
                   RcA = multiplyMatrixVec R cA;
                   t = vsub cB RcA
               in Inr (R, t))"

section \<open>Molecules and the atom mapping\<close>

text \<open>
  A bond as the parser builds it: \<open>from\<close>, \<open>to\<close> and \<open>type\<close> are results of
  \<open>parseInt\<close>, an integer or NaN (\<open>None\<close>). A molecule is the object
  \<open>getMoleculePoints\<close> returns; \<open>atomMapping\<close> is \<open>null\<close> (\<open>None\<close>) or the mapping
  to the previous molecule, with \<open>-1\<close> for an atom that has no partner.
\<close>

record bond =
  bfrom :: "int option"
  bto :: "int option"
  btype :: "int option"

record molecule =
  atoms :: "vec list"
  elementIndexes :: "nat list"
  bonds :: "bond list"
  atomMapping :: "int list option"

text \<open>Reading an array at an index: \<open>undefined\<close> (\<open>None\<close>) past the end.\<close>

definition nth_opt :: "'a list \<Rightarrow> nat \<Rightarrow> 'a option" where
  "nth_opt xs i = (if i < length xs then Some (xs ! i) else None)"

text \<open>
  A \<open>Set\<close> of atom indices, as the list of its elements in insertion order.
\<close>

definition set_add :: "nat list \<Rightarrow> nat \<Rightarrow> nat list" where
  "set_add S x = (if x \<in> set S then S else S @ [x])"

definition set_has :: "nat list \<Rightarrow> int \<Rightarrow> bool" where
  "set_has S x = (0 \<le> x \<and> nat x \<in> set S)"

text \<open>
  \<open>adj[x]\<close> is a set only for an integer \<open>x\<close> with \<open>0 \<le> x < n\<close>; for any other
  value it is \<open>undefined\<close>, and calling \<open>add\<close> on it throws a TypeError.
\<close>

definition validIndex :: "nat \<Rightarrow> int option \<Rightarrow> nat option" where
  "validIndex n x =
     (case x of
        None \<Rightarrow> None
      | Some k \<Rightarrow> if 0 \<le> k \<and> k < int n then Some (nat k) else None)"

definition adjacencyStep :: "js_error + nat list list \<Rightarrow> bond \<Rightarrow> js_error + nat list list" where
  "adjacencyStep acc b =
     (case acc of
        Inl e \<Rightarrow> Inl e
      | Inr adj \<Rightarrow>
          (case validIndex (length adj) (bfrom b) of
             None \<Rightarrow> Inl TypeError
           | Some f \<Rightarrow>
               (case validIndex (length adj) (bto b) of
                  None \<Rightarrow> Inl TypeError
                | Some t \<Rightarrow>
                    let adj1 = adj[f := set_add (adj ! f) t]
                    in Inr (adj1[t := set_add (adj1 ! t) f]))))"

definition adjacency :: "bond list \<Rightarrow> nat \<Rightarrow> js_error + nat list list" where
  "adjacency bs n = foldl adjacencyStep (Inr (replicate n [])) bs"

text \<open>
  The score of candidate \<open>j\<close> for atom \<open>i\<close>: the neighbours \<open>nei\<close> of \<open>i\<close> with
  \<open>nei < i\<close>, \<open>mapping[nei] !== -1\<close> and \<open>adjB[j].has(mapping[nei])\<close>.
\<close>

definition scoreOf :: "int list \<Rightarrow> nat list \<Rightarrow> nat list \<Rightarrow> nat \<Rightarrow> int" where
  "scoreOf mapping adjAi adjBj i =
     int (length (filter (\<lambda>nei. nei < i \<and> mapping ! nei \<noteq> - 1 \<and> set_has adjBj (mapping ! nei)) adjAi))"

text \<open>One pass of the loop over \<open>j\<close>, on the pair \<open>(bestJ, bestScore)\<close>.\<close>

definition innerStep ::
  "molecule \<Rightarrow> molecule \<Rightarrow> nat list list \<Rightarrow> nat list list \<Rightarrow> int list \<Rightarrow> bool list \<Rightarrow> nat \<Rightarrow>
   int \<times> int \<Rightarrow> nat \<Rightarrow> int \<times> int" where
  "innerStep molA molB adjA adjB mapping usedB i best j =
     (case best of (bestJ, bestScore) \<Rightarrow>
        if usedB ! j then best
        else if nth_opt (elementIndexes molA) i \<noteq> nth_opt (elementIndexes molB) j then best
        else
          let score = scoreOf mapping (adjA ! i) (adjB ! j) i
          in if score > bestScore then (int j, score) else best)"

text \<open>One pass of the loop over \<open>i\<close>, on the pair \<open>(mapping, usedB)\<close>.\<close>

definition outerStep ::
  "molecule \<Rightarrow> molecule \<Rightarrow> nat list list \<Rightarrow> nat list list \<Rightarrow> nat \<Rightarrow>
   int list \<times> bool list \<Rightarrow> nat \<Rightarrow> int list \<times> bool list" where
  "outerStep molA molB adjA adjB nB st i =
     (case st of (mapping, usedB) \<Rightarrow>
        case foldl (innerStep molA molB adjA adjB mapping usedB i) (- 1, - 1) [0..<nB] of
          (bestJ, bestScore) \<Rightarrow>
            if bestJ \<noteq> - 1
            then (mapping[i := bestJ], usedB[nat bestJ := True])
            else (mapping, usedB))"

text \<open>The state of \<open>computeAtomMapping\<close> after the first \<open>k\<close> passes of the loop over \<open>i\<close>.\<close>

definition mappingLoop ::
  "molecule \<Rightarrow> molecule \<Rightarrow> nat list list \<Rightarrow> nat list list \<Rightarrow> nat \<Rightarrow> int list \<times> bool list" where
  "mappingLoop molA molB adjA adjB k =
     foldl (outerStep molA molB adjA adjB (length (atoms molB)))
       (replicate (length (atoms molA)) (- 1), replicate (length (atoms molB)) False) [0..<k]"

definition computeAtomMapping :: "molecule \<Rightarrow> molecule \<Rightarrow> js_error + int list" where
  "computeAtomMapping molA molB =
     (let nA = length (atoms molA);
          nB = length (atoms molB)
      in case adjacency (bonds molA) nA of
           Inl e \<Rightarrow> Inl e
         | Inr adjA \<Rightarrow>
             (case adjacency (bonds molB) nB of
                Inl e \<Rightarrow> Inl e
              | Inr adjB \<Rightarrow> Inr (fst (mappingLoop molA molB adjA adjB nA))))"

section \<open>The correspondence resolver as the specification words it\<close>

text \<open>
  The definitions of this section follow the specification, not the code; the code is
  compared with them below. Two atoms are adjacent when a bond joins them, in either
  direction. The map built so far is a list of choices, \<open>None\<close> for an unmatched atom.
\<close>

definition adjacent :: "bond list \<Rightarrow> nat \<Rightarrow> nat \<Rightarrow> bool" where
  "adjacent bs a b =
     (\<exists>bd \<in> set bs. (bfrom bd = Some (int a) \<and> bto bd = Some (int b))
                   \<or> (bfrom bd = Some (int b) \<and> bto bd = Some (int a)))"

text \<open>The candidates for atom \<open>i\<close>: the unused atoms of B with the element tag of \<open>i\<close>, ascending.\<close>

definition spec_candidates :: "molecule \<Rightarrow> molecule \<Rightarrow> nat list \<Rightarrow> nat \<Rightarrow> nat list" where
  "spec_candidates molA molB used i =
     filter (\<lambda>j. j \<notin> set used \<and> nth_opt (elementIndexes molA) i = nth_opt (elementIndexes molB) j)
       [0..<length (atoms molB)]"

text \<open>
  The score of candidate \<open>j\<close>: the number of lower-index neighbours of \<open>i\<close> already
  mapped to an atom of B that is a neighbour of \<open>j\<close>.
\<close>

definition spec_score :: "molecule \<Rightarrow> molecule \<Rightarrow> nat option list \<Rightarrow> nat \<Rightarrow> nat \<Rightarrow> nat" where
  "spec_score molA molB m i j =
     length (filter (\<lambda>nei. adjacent (bonds molA) nei i \<and>
                           (case m ! nei of None \<Rightarrow> False | Some k \<Rightarrow> adjacent (bonds molB) k j))
               [0..<i])"

text \<open>The first candidate, in ascending order, whose score is the highest; none without candidates.\<close>

definition spec_pick :: "(nat \<Rightarrow> nat) \<Rightarrow> nat list \<Rightarrow> nat option" where
  "spec_pick sc cs = find (\<lambda>j. \<forall>c \<in> set cs. sc c \<le> sc j) cs"

text \<open>
  One atom of A: its choice is appended to the map and marked used at once. The
  resolver runs over the atoms of A in index order; \<open>spec_resolver molA molB k\<close> is the
  map and the used atoms after the first \<open>k\<close> atoms.
\<close>

definition spec_step ::
  "molecule \<Rightarrow> molecule \<Rightarrow> nat option list \<times> nat list \<Rightarrow> nat \<Rightarrow> nat option list \<times> nat list" where
  "spec_step molA molB st i =
     (case st of (m, used) \<Rightarrow>
        let choice = spec_pick (spec_score molA molB m i) (spec_candidates molA molB used i)
        in (m @ [choice], (case choice of None \<Rightarrow> used | Some j \<Rightarrow> j # used)))"

definition spec_resolver :: "molecule \<Rightarrow> molecule \<Rightarrow> nat \<Rightarrow> nat option list \<times> nat list" where
  "spec_resolver molA molB k = foldl (spec_step molA molB) ([], []) [0..<k]"

text \<open>An entry of the code's mapping for a choice: \<open>-1\<close> for unmatched.\<close>

definition encode :: "nat option \<Rightarrow> int" where
  "encode c = (case c of None \<Rightarrow> - 1 | Some j \<Rightarrow> int j)"

text \<open>The bonds of a molecule all join two indices of its atoms.\<close>

definition validBonds :: "molecule \<Rightarrow> bool" where
  "validBonds mol =
     list_all (\<lambda>b. validIndex (length (atoms mol)) (bfrom b) \<noteq> None
                 \<and> validIndex (length (atoms mol)) (bto b) \<noteq> None) (bonds mol)"

text \<open>
  The invariant of a molecule in the specification's data model: as many element tags
  as atoms, and every bond joins two different indices of the atoms.
\<close>

definition specInvariant :: "molecule \<Rightarrow> bool" where
  "specInvariant mol =
     (length (atoms mol) = length (elementIndexes mol) \<and>
      list_all (\<lambda>b. validIndex (length (atoms mol)) (bfrom b) \<noteq> None
                  \<and> validIndex (length (atoms mol)) (bto b) \<noteq> None
                  \<and> bfrom b \<noteq> bto b) (bonds mol))"

section \<open>The coordinate normalizer as the specification words it\<close>

text \<open>
  Points with real coordinates, their embedding into the numbers of the code, and the
  axis-aligned bounding box of a list of points: the least and the greatest value of a
  coordinate, the midpoint, and the largest of the three dimensions.
\<close>

type_synonym rpoint = "real \<times> real \<times> real"

definition fin3 :: "rpoint \<Rightarrow> vec" where
  "fin3 p = (Fin (fst p), Fin (fst (snd p)), Fin (snd (snd p)))"

definition px :: "rpoint \<Rightarrow> real" where
  "px p = fst p"

definition py :: "rpoint \<Rightarrow> real" where
  "py p = fst (snd p)"

definition pz :: "rpoint \<Rightarrow> real" where
  "pz p = snd (snd p)"

definition lo :: "(rpoint \<Rightarrow> real) \<Rightarrow> rpoint list \<Rightarrow> real" where
  "lo f pts = Min (f ` set pts)"

definition hi :: "(rpoint \<Rightarrow> real) \<Rightarrow> rpoint list \<Rightarrow> real" where
  "hi f pts = Max (f ` set pts)"

definition mid :: "(rpoint \<Rightarrow> real) \<Rightarrow> rpoint list \<Rightarrow> real" where
  "mid f pts = (lo f pts + hi f pts) / 2"

definition maxExtent :: "rpoint list \<Rightarrow> real" where
  "maxExtent pts = max (max (hi px pts - lo px pts) (hi py pts - lo py pts)) (hi pz pts - lo pz pts)"

text \<open>
  The scale: \<open>1\<close> when the largest dimension is at most \<open>1\<close>, its inverse otherwise.
  The normalized points: centered on the midpoint of the box, every coordinate
  multiplied by the one scale.
\<close>

definition spec_scale :: "rpoint list \<Rightarrow> real" where
  "spec_scale pts = (if 1 < maxExtent pts then 1 / maxExtent pts else 1)"

definition spec_normalized :: "rpoint list \<Rightarrow> rpoint list" where
  "spec_normalized pts =
     map (\<lambda>p. ((px p - mid px pts) * spec_scale pts, (py p - mid py pts) * spec_scale pts,
               (pz p - mid pz pts) * spec_scale pts)) pts"

section \<open>Strings and the built-in parsers\<close>

text \<open>
  A string is a list of characters; the records read are ASCII. White space is what
  \<open>trim\<close>, \<open>\s\<close>, \<open>parseInt\<close> and \<open>parseFloat\<close> skip: tab, line feed, vertical tab,
  form feed, carriage return and space.
\<close>

definition is_ws :: "char \<Rightarrow> bool" where
  "is_ws c = (c \<in> set [CHR 0x09, CHR 0x0A, CHR 0x0B, CHR 0x0C, CHR 0x0D, CHR 0x20])"

definition is_digit :: "char \<Rightarrow> bool" where
  "is_digit c = (let n = (of_char c :: nat) in 48 \<le> n \<and> n \<le> 57)"

definition trim :: "string \<Rightarrow> string" where
  "trim s = rev (dropWhile is_ws (rev (dropWhile is_ws s)))"

text \<open>\<open>s.split(c)\<close> for a one-character separator.\<close>

fun split_on :: "char \<Rightarrow> string \<Rightarrow> string list" where
  "split_on c [] = [[]]"
| "split_on c (x # xs) =
     (if x = c then [] # split_on c xs
      else case split_on c xs of
             w # ws \<Rightarrow> (x # w) # ws
           | [] \<Rightarrow> [[x]])"

text \<open>\<open>s.split(/\s+/)\<close>: the pieces between the maximal runs of white space.\<close>

function split_ws :: "string \<Rightarrow> string list" where
  "split_ws [] = [[]]"
| "split_ws (x # xs) =
     (if is_ws x then [] # split_ws (dropWhile is_ws xs)
      else case split_ws xs of
             w # ws \<Rightarrow> (x # w) # ws
           | [] \<Rightarrow> [[x]])"
  by pat_completeness auto
termination
  by (relation "measure length") (auto simp: length_dropWhile_le less_Suc_eq_le)

text \<open>\<open>s.substr(start, len)\<close>.\<close>

definition substr :: "string \<Rightarrow> nat \<Rightarrow> nat \<Rightarrow> string" where
  "substr s start len = take len (drop start s)"

definition digits_value :: "string \<Rightarrow> int" where
  "digits_value ds = foldl (\<lambda>a c. 10 * a + (int (of_char c) - 48)) 0 ds"

text \<open>
  \<open>parseInt(s, 10)\<close>: leading white space is skipped, a sign is read, then the longest
  run of decimal digits; NaN (\<open>None\<close>) when there is no digit. The value is the exact
  integer. \<open>parseInt(undefined, 10)\<close> is NaN.
\<close>

definition parseInt :: "string \<Rightarrow> int option" where
  "parseInt s =
     (let s1 = dropWhile is_ws s;
          sign = (case s1 of c # r \<Rightarrow> if c = CHR ''-'' then - 1 else 1 | [] \<Rightarrow> 1);
          s2 = (case s1 of c # r \<Rightarrow> if c = CHR ''-'' \<or> c = CHR ''+'' then r else s1 | [] \<Rightarrow> s1);
          ds = takeWhile is_digit s2
      in if ds = [] then None else Some (sign * digits_value ds))"

definition parseInt_opt :: "string option \<Rightarrow> int option" where
  "parseInt_opt s = (case s of None \<Rightarrow> None | Some str \<Rightarrow> parseInt str)"

text \<open>
  The exponent part of a decimal literal: \<open>e\<close> or \<open>E\<close>, an optional sign and at least
  one digit; \<open>0\<close> when the text does not start with one.
\<close>

definition exponentPart :: "string \<Rightarrow> int" where
  "exponentPart s =
     (case s of
        [] \<Rightarrow> 0
      | c # r \<Rightarrow>
          if c = CHR ''e'' \<or> c = CHR ''E'' then
            (let sign = (case r of d # r' \<Rightarrow> if d = CHR ''-'' then - 1 else 1 | [] \<Rightarrow> 1);
                 r2 = (case r of d # r' \<Rightarrow> if d = CHR ''-'' \<or> d = CHR ''+'' then r' else r | [] \<Rightarrow> r);
                 ds = takeWhile is_digit r2
             in if ds = [] then 0 else sign * digits_value ds)
          else 0)"

text \<open>
  \<open>parseFloat(s)\<close>: leading white space is skipped and the longest prefix that is a
  decimal literal is read (a sign, then \<open>Infinity\<close> or digits with an optional
  fraction and exponent); NaN when there is none. The value of a finite literal is the
  exact decimal number.
\<close>

definition parseFloat :: "string \<Rightarrow> jsnum" where
  "parseFloat s =
     (let s1 = dropWhile is_ws s;
          neg = (case s1 of c # r \<Rightarrow> c = CHR ''-'' | [] \<Rightarrow> False);
          s2 = (case s1 of c # r \<Rightarrow> if c = CHR ''-'' \<or> c = CHR ''+'' then r else s1 | [] \<Rightarrow> s1)
      in if take 8 s2 = ''Infinity'' then (if neg then NInf else PInf)
         else
           let ip = takeWhile is_digit s2;
               r1 = dropWhile is_digit s2;
               dotted = (case r1 of c # r \<Rightarrow> c = CHR ''.'' | [] \<Rightarrow> False);
               fp = (if dotted then takeWhile is_digit (tl r1) else []);
               r2 = (if dotted then dropWhile is_digit (tl r1) else r1)
           in if ip = [] \<and> fp = [] then NaN
              else
                let m = real_of_int (digits_value (ip @ fp)) / 10 ^ length fp;
                    e = exponentPart r2;
                    v = (if 0 \<le> e then m * 10 ^ nat e else m / 10 ^ nat (- e))
                in Fin (if neg then - v else v))"

text \<open>\<open>xs.indexOf(x)\<close>, with \<open>None\<close> for \<open>-1\<close>.\<close>

fun indexOf :: "'a list \<Rightarrow> 'a \<Rightarrow> nat option" where
  "indexOf [] x = None"
| "indexOf (y # ys) x = (if y = x then Some 0 else map_option Suc (indexOf ys x))"

text \<open>
  \<open>xs.slice(start, end)\<close> with numbers that may be NaN (\<open>None\<close>, read as \<open>0\<close>) or
  negative (counted from the end of the array).
\<close>

definition relIndex :: "nat \<Rightarrow> int option \<Rightarrow> nat" where
  "relIndex len k =
     (case k of
        None \<Rightarrow> 0
      | Some i \<Rightarrow> if i < 0 then nat (max (int len + i) 0) else min (nat i) len)"

definition slice :: "'a list \<Rightarrow> int option \<Rightarrow> int option \<Rightarrow> 'a list" where
  "slice xs start end' =
     (let k = relIndex (length xs) start;
          f = relIndex (length xs) end'
      in take (f - k) (drop k xs))"

text \<open>Addition of two numbers that are integers or NaN.\<close>

definition iadd :: "int option \<Rightarrow> int option \<Rightarrow> int option" where
  "iadd a b = (case a of None \<Rightarrow> None | Some x \<Rightarrow> map_option (\<lambda>y. x + y) b)"

section \<open>The structure parser\<close>

definition ELEMENTS :: "string list" where
  "ELEMENTS = [''H'', ''C'', ''N'', ''O'', ''F'', ''P'', ''S'', ''Cl'', ''Br'', ''I'', ''Unknown'']"

text \<open>An entry of \<open>atomsRaw\<close>: the element symbol and the three coordinates.\<close>

definition parseAtomLine :: "string \<Rightarrow> string \<times> vec" where
  "parseAtomLine line =
     (trim (substr line 31 3),
      (parseFloat (substr line 0 10), parseFloat (substr line 10 10), parseFloat (substr line 20 10)))"

definition parseBondLine :: "string \<Rightarrow> bond" where
  "parseBondLine line =
     \<lparr>bfrom = iadd (parseInt (substr line 0 3)) (Some (- 1)),
      bto = iadd (parseInt (substr line 3 3)) (Some (- 1)),
      btype = parseInt (substr line 6 3)\<rparr>"

definition elementIndex :: "string \<Rightarrow> nat" where
  "elementIndex e = (case indexOf ELEMENTS e of Some k \<Rightarrow> k | None \<Rightarrow> length ELEMENTS - 1)"

text \<open>
  The counts line is the fourth line, trimmed and split at white space; its first two
  fields are read with \<open>parseInt\<close>.
\<close>

definition atomCountOf :: "string list \<Rightarrow> int option" where
  "atomCountOf lines = parseInt_opt (nth_opt (split_ws (trim (lines ! 3))) 0)"

definition bondCountOf :: "string list \<Rightarrow> int option" where
  "bondCountOf lines = parseInt_opt (nth_opt (split_ws (trim (lines ! 3))) 1)"

definition atomLinesOf :: "string list \<Rightarrow> string list" where
  "atomLinesOf lines = slice lines (Some 4) (iadd (Some 4) (atomCountOf lines))"

definition bondLinesOf :: "string list \<Rightarrow> string list" where
  "bondLinesOf lines =
     slice lines (iadd (Some 4) (atomCountOf lines))
       (iadd (iadd (Some 4) (atomCountOf lines)) (bondCountOf lines))"

text \<open>\<open>atomsRaw\<close>: the atom lines whose three coordinates are not NaN.\<close>

definition atomsRawOf :: "string list \<Rightarrow> (string \<times> vec) list" where
  "atomsRawOf lines =
     filter (\<lambda>a. \<not> isNaN (fst (snd a)) \<and> \<not> isNaN (fst (snd (snd a))) \<and> \<not> isNaN (snd (snd (snd a))))
       (map parseAtomLine (atomLinesOf lines))"

text \<open>
  The parsing part of \<open>getMoleculePoints\<close>, from \<open>sdf.split\<close> to \<open>elementIndexes\<close>: the
  atoms, the element indexes and the bonds of the record, or the error thrown.
\<close>

definition parseSdf :: "string \<Rightarrow> js_error + (vec list \<times> nat list \<times> bond list)" where
  "parseSdf sdf =
     (let lines = split_on (CHR 0x0A) sdf in
      if length lines < 4 then Inl SdfTooShort
      else
        let atomsRaw = atomsRawOf lines in
        if length atomsRaw = 0 then Inl ParsedZeroAtoms
        else
          let bs = map parseBondLine (bondLinesOf lines);
              ats = map snd atomsRaw;
              eis = map (\<lambda>a. elementIndex (fst a)) atomsRaw
          in Inr (ats, eis, bs))"

section \<open>Alignment to the previous molecule, normalisation, the sequence\<close>

text \<open>
  The matched pairs \<open>[atoms[i], previousMol.atoms[j]]\<close> for the entries \<open>j\<close> of the
  mapping other than \<open>-1\<close>, in the order of \<open>i\<close>. Every such \<open>j\<close> is an index of
  \<open>previousMol.atoms\<close> (the mapping loop only stores indices \<open>j < nB\<close>).
\<close>

definition matchedPairs :: "vec list \<Rightarrow> vec list \<Rightarrow> int list \<Rightarrow> (vec \<times> vec) list" where
  "matchedPairs ats prevAtoms mapping =
     map (\<lambda>ij. (ats ! fst ij, prevAtoms ! nat (snd ij)))
       (filter (\<lambda>ij. snd ij \<noteq> - 1) (zip [0..<length mapping] mapping))"

text \<open>
  The block \<open>if (previousMol) { ... }\<close> of \<open>getMoleculePoints\<close>: the atoms after it and
  \<open>atomMapping\<close>.
\<close>

definition alignToPrevious ::
  "(nat \<Rightarrow> jsnum) \<Rightarrow> vec list \<Rightarrow> nat list \<Rightarrow> bond list \<Rightarrow> molecule option \<Rightarrow>
   js_error + (vec list \<times> int list option)" where
  "alignToPrevious rnd ats eis bs previousMol =
     (case previousMol of
        None \<Rightarrow> Inr (ats, None)
      | Some prev \<Rightarrow>
          (case computeAtomMapping
                  \<lparr>atoms = ats, elementIndexes = eis, bonds = bs, atomMapping = None\<rparr> prev of
             Inl e \<Rightarrow> Inl e
           | Inr mapping \<Rightarrow>
               let pairs = matchedPairs ats (atoms prev) mapping in
               if length pairs \<ge> 3 then
                 (case computeAlignment rnd (map fst pairs) (map snd pairs) of
                    Inl e \<Rightarrow> Inl e
                  | Inr Rt \<Rightarrow>
                      Inr (map (\<lambda>a. vadd (multiplyMatrixVec (fst Rt) a) (snd Rt)) ats, Some mapping))
               else Inr (ats, Some mapping)))"

text \<open>The block \<open>// Normalize and center\<close>: the scale factor and the new atoms.\<close>

definition boxMin :: "vec list \<Rightarrow> vec" where
  "boxMin ats = (Math_min (map fst ats), Math_min (map (\<lambda>a. fst (snd a)) ats),
                Math_min (map (\<lambda>a. snd (snd a)) ats))"

definition boxMax :: "vec list \<Rightarrow> vec" where
  "boxMax ats = (Math_max (map fst ats), Math_max (map (\<lambda>a. fst (snd a)) ats),
                Math_max (map (\<lambda>a. snd (snd a)) ats))"

definition boxCenter :: "vec list \<Rightarrow> vec" where
  "boxCenter ats = vmap (\<lambda>s. s / Fin 2) (vadd (boxMin ats) (boxMax ats))"

definition boxSize :: "vec list \<Rightarrow> vec" where
  "boxSize ats = vsub (boxMax ats) (boxMin ats)"

definition normScale :: "vec list \<Rightarrow> jsnum" where
  "normScale ats =
     (let maxDim = (case boxSize ats of (sx, sy, sz) \<Rightarrow> Math_max [sx, sy, sz])
      in if jgt maxDim (Fin 1) then Fin 1 / maxDim else Fin 1)"

definition normalizeAtoms :: "vec list \<Rightarrow> vec list" where
  "normalizeAtoms ats =
     (let center = boxCenter ats;
          scale = normScale ats
      in map (\<lambda>a. vmap (\<lambda>d. d * scale) (vsub a center)) ats)"

text \<open>
  What the data source gives for a compound name: the lookup of the name is rejected,
  the download answers with a status that is not ok, or the text of the record arrives.
\<close>

datatype fetched = NoCompound | NotOk | Body string

text \<open>
  \<open>getMoleculePoints(name, 0.45, previousMol)\<close>, given what the data source answers
  for \<open>name\<close> and the draws of \<open>Math.random()\<close> during the call.
\<close>

definition getMoleculePoints ::
  "(nat \<Rightarrow> jsnum) \<Rightarrow> fetched \<Rightarrow> molecule option \<Rightarrow> js_error + molecule" where
  "getMoleculePoints rnd response previousMol =
     (case response of
        NoCompound \<Rightarrow> Inl LookupFailed
      | NotOk \<Rightarrow> Inl DownloadFailed
      | Body sdf \<Rightarrow>
          (case parseSdf sdf of
             Inl e \<Rightarrow> Inl e
           | Inr parsed \<Rightarrow>
               (case parsed of (ats, eis, bs) \<Rightarrow>
                  (case alignToPrevious rnd ats eis bs previousMol of
                     Inl e \<Rightarrow> Inl e
                   | Inr aligned \<Rightarrow>
                       Inr \<lparr>atoms = normalizeAtoms (fst aligned), elementIndexes = eis,
                            bonds = bs, atomMapping = snd aligned\<rparr>))))"

text \<open>
  The loop of \<open>loadMoleculesOnce\<close> over the compound names: each molecule is pushed to
  \<open>POSITION_SETS\<close> and becomes \<open>prev\<close>; an exception of \<open>getMoleculePoints\<close> is not
  caught, so it ends the loop. The result is \<open>POSITION_SETS\<close> and the exception, if any.
\<close>

fun loadLoop ::
  "molecule option \<Rightarrow> molecule list \<Rightarrow> (fetched \<times> (nat \<Rightarrow> jsnum)) list \<Rightarrow>
   molecule list \<times> js_error option" where
  "loadLoop prev sets [] = (sets, None)"
| "loadLoop prev sets (c # cs) =
     (case getMoleculePoints (snd c) (fst c) prev of
        Inl e \<Rightarrow> (sets, Some e)
      | Inr mol \<Rightarrow> loadLoop (Some mol) (sets @ [mol]) cs)"

definition loadMoleculesOnce ::
  "molecule list \<Rightarrow> (fetched \<times> (nat \<Rightarrow> jsnum)) list \<Rightarrow> molecule list \<times> js_error option" where
  "loadMoleculesOnce POSITION_SETS compounds =
     (if length POSITION_SETS > 0 then (POSITION_SETS, None)
      else loadLoop None POSITION_SETS compounds)"

section \<open>The transition controller (components/MolecularViewer.jsx)\<close>

text \<open>The ease of \<open>animate\<close>, on the progress \<open>p\<close>.\<close>

definition ease :: "jsnum \<Rightarrow> jsnum" where
  "ease p = (if jlt p (Fin (1 / 2)) then Fin 2 * p * p else Fin (- 1) + (Fin 4 - Fin 2 * p) * p)"

text \<open>\<open>Vector3.lerpVectors(v1, v2, alpha)\<close> and \<open>MathUtils.lerp(x, y, t)\<close> of three.js.\<close>

definition lerpVectors :: "vec \<Rightarrow> vec \<Rightarrow> jsnum \<Rightarrow> vec" where
  "lerpVectors v1 v2 alpha =
     (case v1 of (x1, y1, z1) \<Rightarrow> case v2 of (x2, y2, z2) \<Rightarrow>
        (x1 + (x2 - x1) * alpha, y1 + (y2 - y1) * alpha, z1 + (z2 - z1) * alpha))"

definition lerp :: "jsnum \<Rightarrow> jsnum \<Rightarrow> jsnum \<Rightarrow> jsnum" where
  "lerp x y t = (Fin 1 - t) * x + t * y"

text \<open>
  A sprite: its \<open>position\<close>, the opacity of its material and its \<open>userData\<close>. A bond
  line: its \<open>userData\<close> and the two points of its geometry.
\<close>

record sprite =
  position :: vec
  opacity :: jsnum
  start :: vec
  target :: vec
  fadeStart :: jsnum
  fadeEnd :: jsnum

record bondLine =
  startStart :: vec
  startEnd :: vec
  targetStart :: vec
  targetEnd :: vec
  points :: "vec \<times> vec"

record viewer =
  POSITION_SETS :: "molecule list"
  sharedSprites :: "sprite list"
  sharedBondLines :: "bondLine list"
  progress :: jsnum
  animating :: bool

text \<open>
  The body of \<open>sharedSprites.forEach\<close> in \<open>transition\<close>, for sprite \<open>i\<close>. The guard
  \<open>atomMapping[i] !== -1 && atomMapping[i] < atoms.length\<close> lets an entry below \<open>-1\<close>
  through, for which \<open>atoms[atomMapping[i]]\<close> is \<open>undefined\<close> and spreading it throws a
  TypeError.
\<close>

definition retarget :: "molecule \<Rightarrow> nat \<Rightarrow> sprite \<Rightarrow> js_error + sprite" where
  "retarget tgt i s =
     (let s1 = s\<lparr>start := position s, fadeStart := opacity s\<rparr>;
          mapped = (case atomMapping tgt of
                      None \<Rightarrow> None
                    | Some am \<Rightarrow>
                        (case nth_opt am i of
                           None \<Rightarrow> None
                         | Some j \<Rightarrow> if j \<noteq> - 1 \<and> j < int (length (atoms tgt)) then Some j else None))
      in case mapped of
           Some j \<Rightarrow>
             (case validIndex (length (atoms tgt)) (Some j) of
                Some k \<Rightarrow> Inr (s1\<lparr>target := atoms tgt ! k, fadeEnd := Fin 1\<rparr>)
              | None \<Rightarrow> Inl TypeError)
         | None \<Rightarrow>
             if i < length (atoms tgt) then Inr (s1\<lparr>target := atoms tgt ! i, fadeEnd := Fin 1\<rparr>)
             else Inr (s1\<lparr>target := position s1, fadeEnd := Fin 0\<rparr>))"

text \<open>
  The body of \<open>sharedBondLines.forEach\<close> in \<open>transition\<close>, for line \<open>i\<close>. The guard
  \<open>b.from < atoms.length && b.to < atoms.length\<close> lets a negative index through, for
  which \<open>atoms[b.from]\<close> is \<open>undefined\<close> and spreading it throws a TypeError.
\<close>

definition belowLength :: "int option \<Rightarrow> nat \<Rightarrow> bool" where
  "belowLength k n = (case k of None \<Rightarrow> False | Some i \<Rightarrow> i < int n)"

definition retargetLine :: "molecule \<Rightarrow> nat \<Rightarrow> bondLine \<Rightarrow> js_error + bondLine" where
  "retargetLine tgt i line =
     (if i \<ge> length (bonds tgt) then Inr line
      else
        let b = bonds tgt ! i; n = length (atoms tgt) in
        if belowLength (bfrom b) n \<and> belowLength (bto b) n then
          (case (validIndex n (bfrom b), validIndex n (bto b)) of
             (Some f, Some t) \<Rightarrow> Inr (line\<lparr>targetStart := atoms tgt ! f, targetEnd := atoms tgt ! t\<rparr>)
           | _ \<Rightarrow> Inl TypeError)
        else Inr line)"

text \<open>Running a list of steps that may throw: the first error ends it.\<close>

fun collect :: "(js_error + 'a) list \<Rightarrow> js_error + 'a list" where
  "collect [] = Inr []"
| "collect (x # xs) =
     (case x of
        Inl e \<Rightarrow> Inl e
      | Inr v \<Rightarrow> (case collect xs of Inl e \<Rightarrow> Inl e | Inr vs \<Rightarrow> Inr (v # vs)))"

text \<open>
  \<open>transition(idx)\<close>: \<open>POSITION_SETS[idx]\<close> is \<open>undefined\<close> for an index that is not in
  the sequence, and destructuring it throws a TypeError. The sprites come first, then
  the bond lines.
\<close>

definition transition :: "nat \<Rightarrow> viewer \<Rightarrow> js_error + viewer" where
  "transition idx v =
     (case nth_opt (POSITION_SETS v) idx of
        None \<Rightarrow> Inl TypeError
      | Some tgt \<Rightarrow>
          (case collect (map (\<lambda>p. retarget tgt (fst p) (snd p))
                           (zip [0..<length (sharedSprites v)] (sharedSprites v))) of
             Inl e \<Rightarrow> Inl e
           | Inr sprites \<Rightarrow>
               (case collect (map (\<lambda>p. retargetLine tgt (fst p) (snd p))
                                (zip [0..<length (sharedBondLines v)] (sharedBondLines v))) of
                  Inl e \<Rightarrow> Inl e
                | Inr lines \<Rightarrow>
                    Inr (v\<lparr>sharedSprites := sprites, sharedBondLines := lines,
                           progress := Fin 0, animating := True\<rparr>))))"

text \<open>\<open>progress >= 1\<close>.\<close>

definition jge :: "jsnum \<Rightarrow> jsnum \<Rightarrow> bool" where
  "jge a b = (jlt b a \<or> (\<not> isNaN a \<and> a = b))"

text \<open>One frame of \<open>animate\<close>, without the rendering.\<close>

definition animate :: "viewer \<Rightarrow> viewer" where
  "animate v =
     (if animating v then
        let p = jmin (progress v + Fin (2 / 100)) (Fin 1);
            t = ease p
        in v\<lparr>progress := p,
              animating := (if jge p (Fin 1) then False else animating v),
              sharedSprites :=
                map (\<lambda>s. s\<lparr>position := lerpVectors (start s) (target s) t,
                             opacity := lerp (fadeStart s) (fadeEnd s) t\<rparr>) (sharedSprites v),
              sharedBondLines :=
                map (\<lambda>line. line\<lparr>points := (lerpVectors (startStart line) (targetStart line) t,
                                           lerpVectors (startEnd line) (targetEnd line) t)\<rparr>)
                  (sharedBondLines v)\<rparr>
      else v)"

section \<open>The transition controller with instanced meshes (the second viewer component)\<close>

text \<open>
  The second viewer draws the atoms of each element with one instanced mesh. Of a mesh
  the model keeps \<open>count\<close> and, for every instance the buffer has room for, the
  translation of its matrix (what \<open>getMatrixAt\<close> and \<open>decompose\<close> give back as the
  position; the buffer's rounding to single precision is not modelled). \<open>atomStart[el]\<close>
  and \<open>atomTarget[el]\<close> are arrays that may have holes. The bond mesh and the colours
  are not part of the model; of the bond block only the exception it can throw is.
\<close>

record atomMesh =
  elName :: string
  count :: nat
  instancePos :: "vec list"
  atomStart :: "nat \<Rightarrow> vec option"
  atomTarget :: "nat \<Rightarrow> vec option"

record meshViewer =
  POSITION_SETS_m :: "molecule list"
  sharedAtomMeshes :: "atomMesh list"
  progress_m :: jsnum
  animating_m :: bool
  currentSet :: nat

definition maxPoints :: nat where
  "maxPoints = 150"

definition maxBonds :: nat where
  "maxBonds = 500"

text \<open>
  Reading the position of instance \<open>i\<close>: past the end of the buffer every element read
  is \<open>undefined\<close>, and \<open>pos.clone()\<close> then builds the default vector \<open>(0, 0, 0)\<close>. Writing
  past the end of the buffer has no effect.
\<close>

definition readPos :: "atomMesh \<Rightarrow> nat \<Rightarrow> vec" where
  "readPos mesh i = (if i < length (instancePos mesh) then instancePos mesh ! i else zeroVec)"

definition writePos :: "atomMesh \<Rightarrow> nat \<Rightarrow> vec \<Rightarrow> atomMesh" where
  "writePos mesh i p =
     (if i < length (instancePos mesh) then mesh\<lparr>instancePos := (instancePos mesh)[i := p]\<rparr>
      else mesh)"

text \<open>The block \<open>// Save current positions\<close> of \<open>transition\<close>, for one mesh.\<close>

definition savePositions :: "atomMesh \<Rightarrow> atomMesh" where
  "savePositions mesh =
     foldl (\<lambda>m i. m\<lparr>atomStart := (atomStart m)(i \<mapsto> readPos m i)\<rparr>) mesh [0..<count mesh]"

text \<open>
  The block \<open>// Set target atoms\<close>, for one mesh: one pass of the loop over \<open>i\<close> on the
  mesh and \<open>instanceId\<close>, then the loop and the new \<open>count\<close>. \<open>mapped\<close> is \<open>undefined\<close>
  (\<open>None\<close>) when the mapping has no entry \<open>i\<close>.
\<close>

definition mappedIndex :: "molecule \<Rightarrow> nat \<Rightarrow> int option" where
  "mappedIndex tgt i =
     (case atomMapping tgt of
        None \<Rightarrow> Some (int i)
      | Some am \<Rightarrow>
          (case nth_opt am i of
             None \<Rightarrow> None
           | Some j \<Rightarrow> if j \<noteq> - 1 then Some j else Some (int i)))"

definition targetStep :: "molecule \<Rightarrow> atomMesh \<times> nat \<Rightarrow> nat \<Rightarrow> atomMesh \<times> nat" where
  "targetStep tgt st i =
     (case st of (mesh, instanceId) \<Rightarrow>
        case validIndex (length (atoms tgt)) (mappedIndex tgt i) of
          None \<Rightarrow> st
        | Some k \<Rightarrow>
            if (case indexOf ELEMENTS (elName mesh) of
                  None \<Rightarrow> False
                | Some elIdx \<Rightarrow> nth_opt (elementIndexes tgt) k = Some elIdx) then
              (writePos (mesh\<lparr>atomTarget := (atomTarget mesh)(instanceId \<mapsto> atoms tgt ! k)\<rparr>)
                 instanceId (atoms tgt ! k),
               Suc instanceId)
            else st)"

definition setTargets :: "molecule \<Rightarrow> atomMesh \<Rightarrow> atomMesh" where
  "setTargets tgt mesh =
     (case foldl (targetStep tgt) (mesh, 0) [0..<maxPoints] of
        (mesh', instanceId) \<Rightarrow> mesh'\<lparr>count := instanceId\<rparr>)"

text \<open>
  The bond block spreads \<open>atoms[b.from]\<close> and \<open>atoms[b.to]\<close> for every bond below
  \<open>maxBonds\<close>; that throws a TypeError for an endpoint that is not an index of the atoms.
\<close>

definition bondsSpread :: "molecule \<Rightarrow> bool" where
  "bondsSpread tgt =
     list_all (\<lambda>b. validIndex (length (atoms tgt)) (bfrom b) \<noteq> None
                 \<and> validIndex (length (atoms tgt)) (bto b) \<noteq> None)
       (take maxBonds (bonds tgt))"

text \<open>\<open>transition(idx)\<close> of the second viewer.\<close>

definition transition_m :: "nat \<Rightarrow> meshViewer \<Rightarrow> js_error + meshViewer" where
  "transition_m idx v =
     (case nth_opt (POSITION_SETS_m v) idx of
        None \<Rightarrow> Inl TypeError
      | Some tgt \<Rightarrow>
          let saved = map savePositions (sharedAtomMeshes v);
              meshes = map (setTargets tgt) saved
          in if bondsSpread tgt
             then Inr (v\<lparr>sharedAtomMeshes := meshes, progress_m := Fin 0, animating_m := True,
                         currentSet := idx\<rparr>)
             else Inl TypeError)"

text \<open>
  The atoms part of one frame of \<open>animate\<close> of the second viewer, for one mesh. A missing
  start is a new zero vector that is not kept; a missing target is the start.
  \<open>start.lerp(target, t)\<close> changes the vector kept in \<open>atomStart\<close> itself, and the result
  is written to the instance.
\<close>

definition startOf :: "atomMesh \<Rightarrow> nat \<Rightarrow> vec" where
  "startOf mesh i = (case atomStart mesh i of None \<Rightarrow> zeroVec | Some p \<Rightarrow> p)"

definition targetOf :: "atomMesh \<Rightarrow> nat \<Rightarrow> vec" where
  "targetOf mesh i = (case atomTarget mesh i of None \<Rightarrow> startOf mesh i | Some p \<Rightarrow> p)"

definition lerpStep :: "jsnum \<Rightarrow> atomMesh \<Rightarrow> nat \<Rightarrow> atomMesh" where
  "lerpStep t mesh i =
     (let pos = lerpVectors (startOf mesh i) (targetOf mesh i) t;
          mesh1 = (case atomStart mesh i of
                     None \<Rightarrow> mesh
                   | Some p \<Rightarrow> mesh\<lparr>atomStart := (atomStart mesh)(i \<mapsto> pos)\<rparr>)
      in writePos mesh1 i pos)"

text \<open>The frame up to the end of the atoms block: the progress and the meshes.\<close>

definition animateAtoms :: "meshViewer \<Rightarrow> meshViewer" where
  "animateAtoms v =
     (if animating_m v then
        let p = jmin (progress_m v + Fin (2 / 100)) (Fin 1);
            t = ease p
        in v\<lparr>progress_m := p,
              sharedAtomMeshes :=
                map (\<lambda>mesh. foldl (lerpStep t) mesh [0..<count mesh]) (sharedAtomMeshes v)\<rparr>
      else v)"

text \<open>
  The bond block of a frame spreads four atoms for every index below the larger of the
  two bond counts, of the molecule before the current one in the cycle and of the
  current one; a missing bond is read as \<open>{ from: 0, to: 0 }\<close>. Spreading an atom that is
  not there throws a TypeError, as does a molecule that is not there.
\<close>

definition spreads :: "molecule \<Rightarrow> nat \<Rightarrow> bool" where
  "spreads mol i =
     (let b = (if i < length (bonds mol) then bonds mol ! i
               else \<lparr>bfrom = Some 0, bto = Some 0, btype = None\<rparr>)
      in validIndex (length (atoms mol)) (bfrom b) \<noteq> None
         \<and> validIndex (length (atoms mol)) (bto b) \<noteq> None)"

definition bondBlockReturns :: "meshViewer \<Rightarrow> bool" where
  "bondBlockReturns v =
     (let sets = POSITION_SETS_m v; n = length sets in
      case nth_opt sets ((currentSet v + n - 1) mod n) of
        None \<Rightarrow> False
      | Some prevMol \<Rightarrow>
          (case nth_opt sets (currentSet v) of
             None \<Rightarrow> False
           | Some currMol \<Rightarrow>
               list_all (\<lambda>i. spreads prevMol i \<and> spreads currMol i)
                 [0..<max (length (bonds prevMol)) (length (bonds currMol))]))"

text \<open>
  One frame of \<open>animate\<close> of the second viewer, without the rendering. When the bond block
  throws, the frame ends there: the atoms have moved and the flag is not cleared (the
  next frame was requested before).
\<close>

definition animate_m :: "meshViewer \<Rightarrow> meshViewer" where
  "animate_m v =
     (if animating_m v then
        let v1 = animateAtoms v in
        if bondBlockReturns v1 then
          v1\<lparr>animating_m := (if jge (progress_m v1) (Fin 1) then False else animating_m v1)\<rparr>
        else v1
      else v)"

text \<open>
  The set-up of \<open>init\<close>. \<open>elementCounts\<close> counts the atoms of the first molecule by
  element name, the names in the order they first occur; \<open>ELEMENTS[idx] || "Unknown"\<close>
  names an index.
\<close>

definition elementName :: "nat option \<Rightarrow> string" where
  "elementName idx =
     (case idx of
        None \<Rightarrow> ''Unknown''
      | Some k \<Rightarrow> if k < length ELEMENTS then ELEMENTS ! k else ''Unknown'')"

definition countStep :: "(string \<times> nat) list \<Rightarrow> nat \<Rightarrow> (string \<times> nat) list" where
  "countStep cs idx =
     (let el = elementName (Some idx) in
      case map_of cs el of
        None \<Rightarrow> cs @ [(el, 1)]
      | Some c \<Rightarrow> map (\<lambda>kv. if fst kv = el then (el, c + 1) else kv) cs)"

definition elementCounts :: "molecule \<Rightarrow> (string \<times> nat) list" where
  "elementCounts first = foldl countStep [] (elementIndexes first)"

text \<open>
  \<open>new THREE.InstancedMesh(sphereGeo, material, atomCount)\<close> has a buffer with room for
  \<open>atomCount\<close> instances, and its \<open>count\<close> is \<open>atomCount\<close>; \<open>atomStart[el]\<close> and
  \<open>atomTarget[el]\<close> start empty.
\<close>

definition newMesh :: "string \<times> nat \<Rightarrow> atomMesh" where
  "newMesh entry =
     \<lparr>elName = fst entry, count = snd entry, instancePos = replicate (snd entry) zeroVec,
      atomStart = Map.empty, atomTarget = Map.empty\<rparr>"

text \<open>
  The block \<open>// INITIAL ATOMS\<close>, for atom \<open>i\<close> of the first molecule: the instance is
  written at \<open>mesh.count\<close>, which is then raised by one.
\<close>

definition placeAtom :: "molecule \<Rightarrow> atomMesh list \<Rightarrow> nat \<Rightarrow> atomMesh list" where
  "placeAtom first meshes i =
     (let el = elementName (nth_opt (elementIndexes first) i);
          pos = atoms first ! i
      in map (\<lambda>mesh. if elName mesh = el
                      then (writePos mesh (count mesh) pos)
                             \<lparr>count := Suc (count mesh),
                              atomStart := (atomStart mesh)(count mesh \<mapsto> pos)\<rparr>
                      else mesh) meshes)"

definition setupMeshes :: "molecule \<Rightarrow> atomMesh list" where
  "setupMeshes first =
     foldl (placeAtom first) (map newMesh (elementCounts first)) [0..<length (atoms first)]"

text \<open>
  \<open>init\<close> once the sequence is loaded: nothing for an empty sequence; otherwise the
  set-up from the first molecule (the block \<open>// INITIAL BONDS\<close> spreads the two atoms of
  every bond), then \<open>transition(0)\<close>.
\<close>

definition init_m :: "molecule list \<Rightarrow> js_error + meshViewer" where
  "init_m sets =
     (case sets of
        [] \<Rightarrow> Inr \<lparr>POSITION_SETS_m = [], sharedAtomMeshes = [], progress_m = Fin 0,
                    animating_m = False, currentSet = 0\<rparr>
      | first # rest \<Rightarrow>
          if validBonds first
          then transition_m 0 \<lparr>POSITION_SETS_m = sets, sharedAtomMeshes = setupMeshes first,
                                progress_m = Fin 0, animating_m = False, currentSet = 0\<rparr>
          else Inl TypeError)"

text \<open>The callback of \<open>setInterval\<close>: the transition to the next molecule of the cycle.\<close>

definition nextTransition :: "meshViewer \<Rightarrow> js_error + meshViewer" where
  "nextTransition v = transition_m ((currentSet v + 1) mod length (POSITION_SETS_m v)) v"

section \<open>Predicates used in the proofs\<close>

text \<open>A number that is zero or NaN; a matrix whose last row, or last column, is so.\<close>

definition zn :: "jsnum \<Rightarrow> bool" where
  "zn x = (x = Fin 0 \<or> x = NaN)"

definition row2zn :: "mat \<Rightarrow> bool" where
  "row2zn M = (case M of (r0, r1, (a, b, c)) \<Rightarrow> zn a \<and> zn b \<and> zn c)"

definition col2zn :: "mat \<Rightarrow> bool" where
  "col2zn M = (case M of ((a0, a1, a), (b0, b1, b), (c0, c1, c)) \<Rightarrow> zn a \<and> zn b \<and> zn c)"

text \<open>
  The adjacency sets of the code against the bonds: each set has no repeated element
  and holds the neighbours of its atom.
\<close>

definition adjInv :: "bond list \<Rightarrow> nat \<Rightarrow> nat list list \<Rightarrow> bool" where
  "adjInv bs n adj = (length adj = n \<and> (\<forall>i<n. distinct (adj ! i) \<and> set (adj ! i) = {k. k < n \<and> adjacent bs i k}))"

text \<open>The loop over \<open>j\<close> as a running best over the candidates \<open>C\<close> with scores \<open>sc\<close>.\<close>

definition bestStep :: "(nat \<Rightarrow> bool) \<Rightarrow> (nat \<Rightarrow> nat) \<Rightarrow> int \<times> int \<Rightarrow> nat \<Rightarrow> int \<times> int" where
  "bestStep C sc best j = (if C j then (if int (sc j) > snd best then (int j, int (sc j)) else best) else best)"

text \<open>
  The state of the code's loop against the state of the specification's resolver after
  \<open>k\<close> atoms: the first \<open>k\<close> entries are the choices, the others still \<open>-1\<close>; the used
  flags are the used atoms; the choices are indices of B, distinct where defined.
\<close>

definition stateRel :: "nat \<Rightarrow> nat \<Rightarrow> nat \<Rightarrow> int list \<times> bool list \<Rightarrow> nat option list \<times> nat list \<Rightarrow> bool" where
  "stateRel nA nB k cst sst =
     (case cst of (m, u) \<Rightarrow> case sst of (sp, used) \<Rightarrow>
        length sp = k \<and> m = map encode sp @ replicate (nA - k) (- 1) \<and> length u = nB \<and>
        (\<forall>j<nB. u ! j = (j \<in> set used)) \<and> (\<forall>j. Some j \<in> set sp \<longrightarrow> j < nB) \<and>
        set used = {j. Some j \<in> set sp} \<and>
        (\<forall>i<length sp. \<forall>i'<length sp. i \<noteq> i' \<and> sp ! i \<noteq> None \<longrightarrow> sp ! i \<noteq> sp ! i'))"

text \<open>The entries of the atom mapping of a molecule are \<open>-1\<close> or not negative.\<close>

definition mappingInRange :: "molecule \<Rightarrow> bool" where
  "mappingInRange mol =
     (case atomMapping mol of None \<Rightarrow> True | Some am \<Rightarrow> list_all (\<lambda>j. - 1 \<le> j) am)"

text \<open>The value of \<open>prev\<close> in \<open>loadMoleculesOnce\<close> once \<open>sets\<close> has been built.\<close>

definition lastOf :: "molecule list \<Rightarrow> molecule option" where
  "lastOf sets = (if sets = [] then None else Some (last sets))"

section \<open>Example inputs\<close>

text \<open>
  A chain of three carbon atoms, and a molecule of four atoms (carbon, hydrogen, carbon,
  carbon) with bonds \<open>3-2\<close> and \<open>0-1\<close>.
\<close>

definition chainA :: molecule where
  "chainA = \<lparr>atoms = [zeroVec, zeroVec, zeroVec], elementIndexes = [1, 1, 1],
     bonds = [\<lparr>bfrom = Some 0, bto = Some 1, btype = Some 1\<rparr>,
              \<lparr>bfrom = Some 1, bto = Some 2, btype = Some 1\<rparr>],
     atomMapping = None\<rparr>"

definition fourB :: molecule where
  "fourB = \<lparr>atoms = [zeroVec, zeroVec, zeroVec, zeroVec], elementIndexes = [1, 0, 1, 1],
     bonds = [\<lparr>bfrom = Some 3, bto = Some 2, btype = Some 1\<rparr>,
              \<lparr>bfrom = Some 0, bto = Some 1, btype = Some 1\<rparr>],
     atomMapping = None\<rparr>"

text \<open>
  Two records. The first has one carbon atom at the origin and one bond line, from atom
  \<open>1\<close> to atom \<open>5\<close>; the second declares no atom.
\<close>

definition oneAtomSdf :: string where
  "oneAtomSdf = ''h'' @ [CHR 0x0A] @ ''h'' @ [CHR 0x0A] @ ''h'' @ [CHR 0x0A] @ ''  1  1'' @ [CHR 0x0A] @
     ''    0.0000    0.0000    0.0000 C'' @ [CHR 0x0A] @ ''  1  5  1''"

definition noAtomSdf :: string where
  "noAtomSdf = ''h'' @ [CHR 0x0A] @ ''h'' @ [CHR 0x0A] @ ''h'' @ [CHR 0x0A] @ ''  0  0''"

text \<open>
  A viewer in the middle of a transition: one sprite on its way from the origin to
  \<open>(10, 0, 0)\<close>, the progress at \<open>0.38\<close>, and a sequence of one molecule.
\<close>

definition midFlight :: viewer where
  "midFlight =
     \<lparr>POSITION_SETS = [\<lparr>atoms = [(Fin 0, Fin 0, Fin 0)], elementIndexes = [1], bonds = [],
                         atomMapping = None\<rparr>],
      sharedSprites = [\<lparr>position = (Fin 3, Fin 0, Fin 0), opacity = Fin 1,
                         start = (Fin 0, Fin 0, Fin 0), target = (Fin 10, Fin 0, Fin 0),
                         fadeStart = Fin 1, fadeEnd = Fin 1\<rparr>],
      sharedBondLines = [], progress = Fin (38 / 100), animating = True\<rparr>"

text \<open>
  The second viewer in the middle of a transition: one mesh of carbon atoms with one
  instance, drawn at \<open>(3, 0, 0)\<close> on its way from the origin to \<open>(10, 0, 0)\<close>, the progress
  at \<open>0.38\<close>, and a sequence of one molecule.
\<close>

definition midFlightMesh :: meshViewer where
  "midFlightMesh =
     \<lparr>POSITION_SETS_m = [\<lparr>atoms = [(Fin 0, Fin 0, Fin 0)], elementIndexes = [1], bonds = [],
                           atomMapping = None\<rparr>],
      sharedAtomMeshes = [\<lparr>elName = ''C'', count = 1, instancePos = [(Fin 3, Fin 0, Fin 0)],
                            atomStart = [0 \<mapsto> (Fin 0, Fin 0, Fin 0)],
                            atomTarget = [0 \<mapsto> (Fin 10, Fin 0, Fin 0)]\<rparr>],
      progress_m = Fin (38 / 100), animating_m = True, currentSet = 0\<rparr>"

text \<open>
  Two records, of one carbon atom and of two carbon atoms, without bonds, and the
  sequence of two molecules they load as: the first atom of the second molecule is
  mapped to the atom of the first.
\<close>

definition oneCarbonSdf :: string where
  "oneCarbonSdf = ''h'' @ [CHR 0x0A] @ ''h'' @ [CHR 0x0A] @ ''h'' @ [CHR 0x0A] @ ''  1  0'' @ [CHR 0x0A] @
     ''    0.0000    0.0000    0.0000 C''"

definition twoCarbonSdf :: string where
  "twoCarbonSdf = ''h'' @ [CHR 0x0A] @ ''h'' @ [CHR 0x0A] @ ''h'' @ [CHR 0x0A] @ ''  2  0'' @ [CHR 0x0A] @
     ''   -0.5000    0.0000    0.0000 C'' @ [CHR 0x0A] @
     ''    0.5000    0.0000    0.0000 C''"

definition oneC :: molecule where
  "oneC = \<lparr>atoms = [(Fin 0, Fin 0, Fin 0)], elementIndexes = [1], bonds = [],
            atomMapping = None\<rparr>"

definition twoC :: molecule where
  "twoC = \<lparr>atoms = [(Fin (- 1 / 2), Fin 0, Fin 0), (Fin (1 / 2), Fin 0, Fin 0)],
            elementIndexes = [1, 1], bonds = [], atomMapping = Some [0, - 1]\<rparr>"

section \<open>Properties of the number model\<close>

lemma div_Fin_Fin [simp]:
  "Fin a / Fin b =
     (if b \<noteq> 0 then Fin (a / b) else if a = 0 then NaN else if 0 < a then PInf else NInf)"
  by (simp add: divide_jsnum_def)

lemma NaN_right [simp]: "x + NaN = NaN" "x * NaN = NaN" "x - NaN = NaN" "x / NaN = NaN"
  by (cases x; simp add: minus_jsnum_def divide_jsnum_def)+

lemma NaN_left [simp]: "NaN - x = NaN" "NaN / x = NaN"
  by (simp_all add: minus_jsnum_def divide_jsnum_def)

lemma Fin0_plus [simp]: "Fin 0 + x = x"
  by (cases x) simp_all

lemma Fin_minus_Fin [simp]: "Fin a - Fin b = Fin (a - b)"
  by (simp add: minus_jsnum_def)

text \<open>A result of \<open>+\<close>, \<open>-\<close> or \<open>*\<close> is finite only when both operands are.\<close>

lemma fin_plus: "a + b = Fin r \<Longrightarrow> \<exists>x y. a = Fin x \<and> b = Fin y \<and> r = x + y"
  by (cases a; cases b) auto

lemma fin_minus: "a - b = Fin r \<Longrightarrow> \<exists>x y. a = Fin x \<and> b = Fin y \<and> r = x - y"
  by (cases a; cases b) (auto simp: minus_jsnum_def)

lemma fin_times: "a * b = Fin r \<Longrightarrow> \<exists>x y. a = Fin x \<and> b = Fin y \<and> r = x * y"
  by (cases a; cases b) (auto split: if_splits)

text \<open>A value that is zero or NaN stays so under the products and sums of the code.\<close>

lemma zn_simps [simp]: "zn (Fin 0)" "zn NaN"
  by (auto simp: zn_def)

lemma zn_mult [simp]: "zn x \<Longrightarrow> zn (x * y)" "zn x \<Longrightarrow> zn (y * x)"
  by (cases y; auto simp: zn_def)+

lemma zn_add [simp]: "zn x \<Longrightarrow> zn y \<Longrightarrow> zn (x + y)"
  by (auto simp: zn_def)

lemma zn_div_zn [simp]: "zn x \<Longrightarrow> zn n \<Longrightarrow> x / n = NaN"
  by (auto simp: zn_def)

lemma hypot_zn: "zn x \<Longrightarrow> zn y \<Longrightarrow> zn z \<Longrightarrow> zn (Math_hypot x y z)"
  by (auto simp: zn_def Math_hypot_def)

section \<open>The eigen-iteration on a zero matrix\<close>

lemma mmv_nanMat: "multiplyMatrixVec nanMat v = nanVec"
  by (cases v) (simp add: nanMat_def nanVec_def multiplyMatrixVec_def)

lemma mmv_nanVec: "multiplyMatrixVec A nanVec = nanVec"
  by (simp add: nanVec_def multiplyMatrixVec_def split: prod.splits)

lemma norm_nanVec: "(case nanVec of (x, y, z) \<Rightarrow> Math_hypot x y z) = NaN"
  by (simp add: nanVec_def Math_hypot_def)

lemma vmap_const_nan: "vmap (\<lambda>x. NaN) v = nanVec"
  by (simp add: nanVec_def vmap_def split: prod.splits)

lemma powerIterate_nan: "powerIterate n A nanVec = nanVec"
  by (induction n) (simp_all add: mmv_nanVec norm_nanVec vmap_const_nan)

lemma powerIterate_nanMat: "powerIterate (Suc n) nanMat v = nanVec"
  by (simp add: mmv_nanMat norm_nanVec vmap_const_nan powerIterate_nan)

lemma mmv_zero: "\<exists>x y z. multiplyMatrixVec zeroMat v = (x, y, z) \<and> zn x \<and> zn y \<and> zn z"
  by (cases v) (simp add: zeroMat_def zeroVec_def multiplyMatrixVec_def)

text \<open>
  On the zero matrix the first product \<open>A v\<close> is zero (or NaN), its norm is zero (or NaN)
  and the division gives NaN in every component, whatever the start vector; NaN then
  stays.
\<close>

lemma powerIterate_zero: "powerIterate (Suc n) zeroMat v = nanVec"
proof -
  obtain x y z where w: "multiplyMatrixVec zeroMat v = (x, y, z)" and z: "zn x" "zn y" "zn z"
    using mmv_zero by blast
  have "vmap (\<lambda>a. a / Math_hypot x y z) (x, y, z) = nanVec"
    using z hypot_zn[OF z] by (simp add: vmap_def nanVec_def)
  then show ?thesis
    by (simp add: w powerIterate_nan)
qed

lemma fifteen: "(15::nat) = Suc 14"
  by simp

lemma dot_nanVec: "dot nanVec v = NaN"
  by (cases v) (simp add: dot_def nanVec_def)

lemma deflate_nan: "deflate A NaN v = nanMat"
  by (simp add: deflate_def nanMat_def nanVec_def split: prod.splits)

lemma eigenPass_zero: "eigenPass rnd k zeroMat = (nanVec, NaN, nanMat)"
  unfolding eigenPass_def fifteen powerIterate_zero
  by (simp add: Let_def dot_nanVec deflate_nan)

lemma eigenPass_nan: "eigenPass rnd k nanMat = (nanVec, NaN, nanMat)"
  unfolding eigenPass_def fifteen powerIterate_nanMat
  by (simp add: Let_def dot_nanVec deflate_nan)

lemma eigenSymmetric_zero: "eigenSymmetric rnd zeroMat = (nanMat, nanVec)"
  by (simp add: eigenSymmetric_def eigenPass_zero eigenPass_nan) (simp add: nanMat_def nanVec_def)

lemma mult_zero_zero: "multiplyMatrices (transpose3 zeroMat) zeroMat = zeroMat"
  by (simp add: multiplyMatrices_def transpose3_def zeroMat_def zeroVec_def rowTimes_def)

lemma svd3x3_zero: "svd3x3 rnd zeroMat = (nanMat, nanVec, nanMat)"
  by (simp add: svd3x3_def mult_zero_zero eigenSymmetric_zero)
     (simp add: nanVec_def nanMat_def sort3_def jgt_def minus_jsnum_def vmap_def scaleRows_def
        multiplyMatrices_def transpose3_def zeroMat_def zeroVec_def rowTimes_def)

lemma rotationOf_nan: "rotationOf nanMat nanMat = nanMat"
  by (simp add: rotationOf_def nanMat_def nanVec_def multiplyMatrices_def transpose3_def
      rowTimes_def det3_def)

text \<open>
  When the covariance of the centered points is the zero matrix, every entry of the
  rotation and of the translation is NaN.
\<close>

lemma computeAlignment_zero_cov:
  assumes "pointsA \<noteq> []" "length pointsA \<le> length pointsB"
    and "covariance (map (\<lambda>p. vsub p (centroid pointsA)) pointsA)
           (map (\<lambda>p. vsub p (centroid pointsB)) pointsB) = zeroMat"
  shows "computeAlignment rnd pointsA pointsB = Inr (nanMat, nanVec)"
proof -
  have "vsub c (multiplyMatrixVec nanMat v) = nanVec" for c v
    by (cases c) (simp add: mmv_nanMat vsub_def nanVec_def)
  with assms show ?thesis
    by (simp add: computeAlignment_def Let_def svd3x3_zero rotationOf_nan)
qed

lemmas point_simps =
  covariance_def centroid_def vadd_def zeroVec_def vmap_def vsub_def covStep_def zeroMat_def

text \<open>
  C10. Three matched pairs whose points coincide (every atom of A at \<open>(1,2,3)\<close>, every
  atom of B at \<open>(4,5,6)\<close>): the centered points are zero, the covariance \<open>H\<close> is the zero
  matrix, the eigensolver on \<open>H\<^sup>T H = 0\<close> returns NaN eigenvectors and eigenvalues (it
  divides the zero vector by its zero norm), and \<open>computeAlignment\<close> returns a rotation
  and a translation all of whose entries are NaN, for every sequence of random draws.
  Nothing guards the case: the result is neither the identity nor an error.
\<close>

theorem computeAlignment_coincident_points_NaN:
  "covariance
     (map (\<lambda>p. vsub p (centroid [(Fin 1, Fin 2, Fin 3), (Fin 1, Fin 2, Fin 3), (Fin 1, Fin 2, Fin 3)]))
        [(Fin 1, Fin 2, Fin 3), (Fin 1, Fin 2, Fin 3), (Fin 1, Fin 2, Fin 3)])
     (map (\<lambda>p. vsub p (centroid [(Fin 4, Fin 5, Fin 6), (Fin 4, Fin 5, Fin 6), (Fin 4, Fin 5, Fin 6)]))
        [(Fin 4, Fin 5, Fin 6), (Fin 4, Fin 5, Fin 6), (Fin 4, Fin 5, Fin 6)]) = zeroMat
   \<and> eigenSymmetric rnd (multiplyMatrices (transpose3 zeroMat) zeroMat) = (nanMat, nanVec)
   \<and> computeAlignment rnd
       [(Fin 1, Fin 2, Fin 3), (Fin 1, Fin 2, Fin 3), (Fin 1, Fin 2, Fin 3)]
       [(Fin 4, Fin 5, Fin 6), (Fin 4, Fin 5, Fin 6), (Fin 4, Fin 5, Fin 6)]
     = Inr (((NaN, NaN, NaN), (NaN, NaN, NaN), (NaN, NaN, NaN)), (NaN, NaN, NaN))"
proof -
  have H: "covariance
     (map (\<lambda>p. vsub p (centroid [(Fin 1, Fin 2, Fin 3), (Fin 1, Fin 2, Fin 3), (Fin 1, Fin 2, Fin 3)]))
        [(Fin 1, Fin 2, Fin 3), (Fin 1, Fin 2, Fin 3), (Fin 1, Fin 2, Fin 3)])
     (map (\<lambda>p. vsub p (centroid [(Fin 4, Fin 5, Fin 6), (Fin 4, Fin 5, Fin 6), (Fin 4, Fin 5, Fin 6)]))
        [(Fin 4, Fin 5, Fin 6), (Fin 4, Fin 5, Fin 6), (Fin 4, Fin 5, Fin 6)]) = zeroMat"
    by (simp add: point_simps)
  have "computeAlignment rnd
       [(Fin 1, Fin 2, Fin 3), (Fin 1, Fin 2, Fin 3), (Fin 1, Fin 2, Fin 3)]
       [(Fin 4, Fin 5, Fin 6), (Fin 4, Fin 5, Fin 6), (Fin 4, Fin 5, Fin 6)] = Inr (nanMat, nanVec)"
    by (rule computeAlignment_zero_cov) (simp_all add: point_simps)
  then show ?thesis
    using H by (simp add: mult_zero_zero eigenSymmetric_zero) (simp add: nanMat_def nanVec_def)
qed

theorem computeAlignment_coincident_points_NaN_witness:
  "computeAlignment (\<lambda>k. Fin (1 / 2))
       [(Fin 1, Fin 2, Fin 3), (Fin 1, Fin 2, Fin 3), (Fin 1, Fin 2, Fin 3)]
       [(Fin 4, Fin 5, Fin 6), (Fin 4, Fin 5, Fin 6), (Fin 4, Fin 5, Fin 6)]
     = Inr (((NaN, NaN, NaN), (NaN, NaN, NaN), (NaN, NaN, NaN)), (NaN, NaN, NaN))"
  using computeAlignment_coincident_points_NaN [of "\<lambda>k. Fin (1 / 2)"] by simp

section \<open>Planar point sets\<close>

lemma rowTimes_zero: "\<exists>x y z. rowTimes zeroVec X = (x, y, z) \<and> zn x \<and> zn y \<and> zn z"
  by (simp add: rowTimes_def zeroVec_def split: prod.splits)

lemma row2zn_mult: "row2zn (multiplyMatrices (r0, r1, zeroVec) X)"
  using rowTimes_zero[of X] by (auto simp: row2zn_def multiplyMatrices_def)

lemma col2zn_mult: "row2zn U \<Longrightarrow> col2zn (multiplyMatrices W (transpose3 U))"
  by (auto simp: row2zn_def col2zn_def multiplyMatrices_def transpose3_def rowTimes_def
      split: prod.splits)

text \<open>
  A matrix whose last column is zero or NaN has a determinant that is \<open>0\<close> whenever it
  is a finite number.
\<close>

lemma det3_col2zn:
  assumes "col2zn R" "det3 R = Fin r"
  shows "r = 0"
proof -
  obtain r00 r01 r02 r10 r11 r12 r20 r21 r22
    where R: "R = ((r00, r01, r02), (r10, r11, r12), (r20, r21, r22))"
    by (metis prod_cases3)
  have z: "zn r02" "zn r12" "zn r22"
    using assms(1) by (simp_all add: R col2zn_def)
  have d: "r00 * (r11 * r22 - r12 * r21) - r01 * (r10 * r22 - r12 * r20)
             + r02 * (r10 * r21 - r11 * r20) = Fin r"
    using assms(2) by (simp add: R det3_def)
  from fin_plus[OF d] obtain u v where
    u: "r00 * (r11 * r22 - r12 * r21) - r01 * (r10 * r22 - r12 * r20) = Fin u"
    and v: "r02 * (r10 * r21 - r11 * r20) = Fin v" and r: "r = u + v" by blast
  from fin_times[OF v] obtain a b where a: "r02 = Fin a" and "v = a * b" by blast
  with z(1) have v0: "v = 0" by (simp add: zn_def)
  from fin_minus[OF u] obtain p q where p: "r00 * (r11 * r22 - r12 * r21) = Fin p"
    and q: "r01 * (r10 * r22 - r12 * r20) = Fin q" and u2: "u = p - q" by blast
  from fin_times[OF p] obtain p1 p2 where p2: "r11 * r22 - r12 * r21 = Fin p2"
    and pp: "p = p1 * p2" by blast
  from fin_minus[OF p2] obtain s1 s2 where s1: "r11 * r22 = Fin s1" and s2: "r12 * r21 = Fin s2"
    and p2e: "p2 = s1 - s2" by blast
  from fin_times[OF s1] obtain c1 c2 where "r22 = Fin c2" "s1 = c1 * c2" by blast
  with z(3) have s10: "s1 = 0" by (simp add: zn_def)
  from fin_times[OF s2] obtain c3 c4 where "r12 = Fin c3" "s2 = c3 * c4" by blast
  with z(2) have s20: "s2 = 0" by (simp add: zn_def)
  from fin_times[OF q] obtain q1 q2 where q2: "r10 * r22 - r12 * r20 = Fin q2"
    and qq: "q = q1 * q2" by blast
  from fin_minus[OF q2] obtain t1 t2 where t1: "r10 * r22 = Fin t1" and t2: "r12 * r20 = Fin t2"
    and q2e: "q2 = t1 - t2" by blast
  from fin_times[OF t1] obtain c5 c6 where "r22 = Fin c6" "t1 = c5 * c6" by blast
  with z(3) have t10: "t1 = 0" by (simp add: zn_def)
  from fin_times[OF t2] obtain c7 c8 where "r12 = Fin c7" "t2 = c7 * c8" by blast
  with z(2) have t20: "t2 = 0" by (simp add: zn_def)
  show ?thesis
    by (simp add: r v0 u2 pp qq p2e q2e s10 s20 t10 t20)
qed

lemma svd3x3_U_row2: "row2zn (fst (svd3x3 rnd (r0, r1, zeroVec)))"
  by (simp add: svd3x3_def Let_def case_prod_beta row2zn_mult)

lemma rotationOf_mult:
  "rotationOf U Vt = multiplyMatrices
     (if jlt (det3 (multiplyMatrices Vt (transpose3 U))) (Fin 0) then negateLast Vt else Vt)
     (transpose3 U)"
  by (simp add: rotationOf_def Let_def)

lemma computeAlignment_R:
  assumes "pointsA \<noteq> []" "length pointsA \<le> length pointsB"
  shows "computeAlignment rnd pointsA pointsB =
    (let sv = svd3x3 rnd (covariance (map (\<lambda>p. vsub p (centroid pointsA)) pointsA)
                 (map (\<lambda>p. vsub p (centroid pointsB)) pointsB));
         R = rotationOf (fst sv) (snd (snd sv))
     in Inr (R, vsub (centroid pointsB) (multiplyMatrixVec R (centroid pointsA))))"
  using assms by (simp add: computeAlignment_def Let_def case_prod_beta)

text \<open>
  C5 (the code at a failing input). The triangle \<open>(0,0,0), (1,0,0), (0,1,0)\<close> and its
  image under the rotation by a quarter turn about the z axis and the translation by
  \<open>(5,5,0)\<close> are three non-collinear matched pairs. All points lie in the plane
  \<open>z = 0\<close>, so the last row of \<open>H\<close> is zero, the last row of \<open>U = H V S\<^sup>-\<^sup>1\<close> is zero or
  NaN, and so is the last column of \<open>R\<close>, with or without the negated row of \<open>Vt\<close>: for
  every sequence of random draws the determinant of the rotation returned is \<open>0\<close> or
  not a finite number, never close to \<open>1\<close>.
\<close>

theorem computeAlignment_planar_det:
  "\<exists>R t. computeAlignment rnd
            [(Fin 0, Fin 0, Fin 0), (Fin 1, Fin 0, Fin 0), (Fin 0, Fin 1, Fin 0)]
            [(Fin 5, Fin 5, Fin 0), (Fin 5, Fin 6, Fin 0), (Fin 4, Fin 5, Fin 0)] = Inr (R, t)
     \<and> (det3 R = Fin 0 \<or> det3 R = NaN \<or> det3 R = PInf \<or> det3 R = NInf)"
proof -
  let ?A = "[(Fin 0, Fin 0, Fin 0), (Fin 1, Fin 0, Fin 0), (Fin 0, Fin 1, Fin 0)]"
  let ?B = "[(Fin 5, Fin 5, Fin 0), (Fin 5, Fin 6, Fin 0), (Fin 4, Fin 5, Fin 0)]"
  obtain r0 r1 where H: "covariance (map (\<lambda>p. vsub p (centroid ?A)) ?A)
      (map (\<lambda>p. vsub p (centroid ?B)) ?B) = (r0, r1, zeroVec)"
    by (simp add: point_simps)
  define sv where "sv = svd3x3 rnd (r0, r1, zeroVec)"
  define R where "R = rotationOf (fst sv) (snd (snd sv))"
  have "?A \<noteq> []" "length ?A \<le> length ?B"
    by simp_all
  from computeAlignment_R[OF this, of rnd]
  have Rt: "computeAlignment rnd ?A ?B
      = Inr (R, vsub (centroid ?B) (multiplyMatrixVec R (centroid ?A)))"
    unfolding H by (simp add: Let_def sv_def R_def)
  have "row2zn (fst sv)"
    unfolding sv_def by (rule svd3x3_U_row2)
  then have "col2zn R"
    unfolding R_def rotationOf_mult by (rule col2zn_mult)
  then have "det3 R = Fin r \<Longrightarrow> r = 0" for r
    by (rule det3_col2zn)
  then have "det3 R = Fin 0 \<or> det3 R = NaN \<or> det3 R = PInf \<or> det3 R = NInf"
    by (cases "det3 R") auto
  with Rt show ?thesis by blast
qed

section \<open>The ease function\<close>

lemma ease_Fin:
  "ease (Fin p) = Fin (if p < 1 / 2 then 2 * p * p else - 1 + (4 - 2 * p) * p)"
  by (simp add: ease_def)

text \<open>
  C7. On a finite progress \<open>p\<close> the ease is \<open>2 p\<^sup>2\<close> below one half and
  \<open>-1 + (4 - 2 p) p\<close> from there on; the second branch equals \<open>1 - 2 (1 - p)\<^sup>2\<close> on
  \<open>[1/2, 1]\<close>; the values at \<open>0\<close>, \<open>1/2\<close> and \<open>1\<close> are \<open>0\<close>, \<open>1/2\<close> and \<open>1\<close>; and the
  function is monotonic non-decreasing on \<open>[0, 1]\<close>.
\<close>

theorem ease_quadratic_in_out:
  "(p < 1 / 2 \<longrightarrow> ease (Fin p) = Fin (2 * p\<^sup>2))
   \<and> (1 / 2 \<le> p \<longrightarrow> ease (Fin p) = Fin (- 1 + (4 - 2 * p) * p))
   \<and> (1 / 2 \<le> p \<and> p \<le> 1 \<longrightarrow> ease (Fin p) = Fin (1 - 2 * (1 - p)\<^sup>2))
   \<and> ease (Fin 0) = Fin 0 \<and> ease (Fin (1 / 2)) = Fin (1 / 2) \<and> ease (Fin 1) = Fin 1
   \<and> (0 \<le> p \<and> p \<le> q \<and> q \<le> 1 \<longrightarrow>
        (\<exists>a b. ease (Fin p) = Fin a \<and> ease (Fin q) = Fin b \<and> a \<le> b))"
proof -
  have alg: "- 1 + (4 - 2 * x) * x = 1 - 2 * (1 - x)\<^sup>2" for x :: real
    by (simp add: power2_eq_square algebra_simps)
  have mono: "(if p < 1 / 2 then 2 * p * p else - 1 + (4 - 2 * p) * p)
       \<le> (if q < 1 / 2 then 2 * q * q else - 1 + (4 - 2 * q) * q)"
    if "0 \<le> p" "p \<le> q" "q \<le> 1"
  proof -
    have sq: "p * p \<le> q * q"
      using that by (intro mult_mono) auto
    have sq': "(1 - q) * (1 - q) \<le> (1 - p) * (1 - p)"
      using that by (intro mult_mono) auto
    show ?thesis
    proof (cases "q < 1 / 2")
      case True
      then show ?thesis using that sq by simp
    next
      case qh: False
      show ?thesis
      proof (cases "p < 1 / 2")
        case True
        have "p * p \<le> (1 / 2) * (1 / 2)"
          using that True by (intro mult_mono) auto
        then have lo: "2 * p * p \<le> 1 / 2"
          by simp
        have "(1 - q) * (1 - q) \<le> (1 / 2) * (1 / 2)"
          using that qh by (intro mult_mono) auto
        then have hi: "1 / 2 \<le> - 1 + (4 - 2 * q) * q"
          by (simp add: algebra_simps)
        show ?thesis
          using True qh lo hi by simp
      next
        case False
        have "- 1 + (4 - 2 * p) * p \<le> - 1 + (4 - 2 * q) * q"
          using sq' by (simp add: algebra_simps)
        then show ?thesis
          using qh False by simp
      qed
    qed
  qed
  have "ease (Fin p) = Fin (1 - 2 * (1 - p)\<^sup>2)" if "1 / 2 \<le> p"
    using that by (simp add: ease_Fin power2_eq_square algebra_simps)
  moreover have "\<exists>a b. ease (Fin p) = Fin a \<and> ease (Fin q) = Fin b \<and> a \<le> b"
    if "0 \<le> p" "p \<le> q" "q \<le> 1"
    using mono[OF that] by (simp only: ease_Fin) blast
  ultimately show ?thesis
    by (simp add: ease_Fin power2_eq_square)
qed

theorem ease_quadratic_in_out_witness:
  "ease (Fin (1 / 4)) = Fin (1 / 8) \<and> ease (Fin (3 / 4)) = Fin (7 / 8)
   \<and> (\<exists>a b. ease (Fin (1 / 4)) = Fin a \<and> ease (Fin (3 / 4)) = Fin b \<and> a \<le> b)"
  using ease_quadratic_in_out [of "1 / 4" "3 / 4"] ease_quadratic_in_out [of "3 / 4" 1]
  by (simp add: power2_eq_square ease_Fin)

section \<open>The atom mapping\<close>

lemma foldl_adjacencyStep_Inl: "foldl adjacencyStep (Inl e) bs = Inl e"
  by (induction bs) (simp_all add: adjacencyStep_def)

lemma validIndex_Some: "validIndex n x = Some f \<longleftrightarrow> (x = Some (int f) \<and> f < n)"
  by (auto simp: validIndex_def split: option.splits)

lemma adjacent_Nil: "adjacent [] a b = False"
  by (simp add: adjacent_def)

lemma adjacent_snoc:
  "adjacent (bs @ [b]) i k \<longleftrightarrow> adjacent bs i k \<or> (bfrom b = Some (int i) \<and> bto b = Some (int k)) \<or> (bfrom b = Some (int k) \<and> bto b = Some (int i))"
  by (auto simp: adjacent_def)

lemma adjacent_sym: "adjacent bs a b = adjacent bs b a"
  by (auto simp: adjacent_def)

lemma set_add_props: "set (set_add S x) = insert x (set S)" "distinct S \<Longrightarrow> distinct (set_add S x)"
  by (auto simp: set_add_def)

lemma adjacencyStep_inv:
  assumes "adjInv bs n adj" "adjacencyStep (Inr adj) b = Inr adj'"
  shows "adjInv (bs @ [b]) n adj'"
proof -
  from assms(1) have len: "length adj = n" by (simp add: adjInv_def)
  from assms(2) obtain f t where f: "validIndex n (bfrom b) = Some f" and t: "validIndex n (bto b) = Some t"
    and adj': "adj' = (adj[f := set_add (adj ! f) t])[t := set_add ((adj[f := set_add (adj ! f) t]) ! t) f]"
    by (auto simp: adjacencyStep_def len Let_def split: option.splits)
  from f t have bf: "bfrom b = Some (int f)" "f < n" and bt: "bto b = Some (int t)" "t < n"
    by (simp_all add: validIndex_Some)
  show ?thesis
    unfolding adjInv_def
  proof (intro conjI allI impI)
    show "length adj' = n" by (simp add: adj' len)
  next
    fix i assume i: "i < n"
    from assms(1) i have d: "distinct (adj ! i)" and s: "set (adj ! i) = {k. k < n \<and> adjacent bs i k}"
      by (simp_all add: adjInv_def)
    from assms(1) bf bt have df: "distinct (adj ! f)" and dt: "distinct (adj ! t)"
      by (simp_all add: adjInv_def)
    show "distinct (adj' ! i)"
      using d df dt i len bf bt by (auto simp: adj' nth_list_update set_add_props)
    have "set (adj' ! i) = set (adj ! i) \<union> (if i = f then {t} else {}) \<union> (if i = t then {f} else {})"
      using i len bf bt by (auto simp: adj' nth_list_update set_add_props)
    also have "\<dots> = {k. k < n \<and> adjacent (bs @ [b]) i k}"
      using bf bt i by (auto simp: s adjacent_snoc)
    finally show "set (adj' ! i) = {k. k < n \<and> adjacent (bs @ [b]) i k}" .
  qed
qed

lemma adjacency_fold_inv:
  "adjInv bs0 n adj0 \<Longrightarrow> foldl adjacencyStep (Inr adj0) bs = Inr adj \<Longrightarrow> adjInv (bs0 @ bs) n adj"
proof (induction bs arbitrary: bs0 adj0)
  case Nil
  then show ?case by simp
next
  case (Cons b bs)
  show ?case
  proof (cases "adjacencyStep (Inr adj0) b")
    case (Inl e)
    with Cons.prems(2) show ?thesis by (simp add: foldl_adjacencyStep_Inl)
  next
    case (Inr adj1)
    with Cons.prems have "adjInv (bs0 @ [b]) n adj1"
      by (intro adjacencyStep_inv)
    from Cons.IH[OF this] Cons.prems(2) Inr show ?thesis by simp
  qed
qed

lemma adjacency_inv: "adjacency bs n = Inr adj \<Longrightarrow> adjInv bs n adj"
  using adjacency_fold_inv[of "[]" n "replicate n []" bs adj]
  by (simp add: adjacency_def adjInv_def adjacent_Nil)

lemma adjacency_fold_valid:
  "length adj0 = n \<Longrightarrow> list_all (\<lambda>b. validIndex n (bfrom b) \<noteq> None \<and> validIndex n (bto b) \<noteq> None) bs
   \<Longrightarrow> \<exists>adj. foldl adjacencyStep (Inr adj0) bs = Inr adj"
proof (induction bs arbitrary: adj0)
  case Nil
  then show ?case by simp
next
  case (Cons b bs)
  then obtain adj1 where 1: "adjacencyStep (Inr adj0) b = Inr adj1" "length adj1 = n"
    by (auto simp: adjacencyStep_def Let_def split: option.splits)
  with Cons show ?case by simp
qed

lemma adjacency_fold_invalid:
  "length adj0 = n \<Longrightarrow> \<not> list_all (\<lambda>b. validIndex n (bfrom b) \<noteq> None \<and> validIndex n (bto b) \<noteq> None) bs
   \<Longrightarrow> foldl adjacencyStep (Inr adj0) bs = Inl TypeError"
proof (induction bs arbitrary: adj0)
  case Nil
  then show ?case by simp
next
  case (Cons b bs)
  show ?case
  proof (cases "validIndex n (bfrom b) \<noteq> None \<and> validIndex n (bto b) \<noteq> None")
    case True
    then obtain adj1 where 1: "adjacencyStep (Inr adj0) b = Inr adj1" "length adj1 = n"
      using Cons.prems(1) by (auto simp: adjacencyStep_def Let_def split: option.splits)
    with Cons True show ?thesis by simp
  next
    case False
    then have "adjacencyStep (Inr adj0) b = Inl TypeError"
      using Cons.prems(1) by (auto simp: adjacencyStep_def Let_def split: option.splits)
    then show ?thesis by (simp add: foldl_adjacencyStep_Inl)
  qed
qed

lemma adjacency_valid: "validBonds mol \<Longrightarrow> \<exists>adj. adjacency (bonds mol) (length (atoms mol)) = Inr adj"
  unfolding validBonds_def adjacency_def by (rule adjacency_fold_valid) simp

lemma adjacency_invalid: "\<not> validBonds mol \<Longrightarrow> adjacency (bonds mol) (length (atoms mol)) = Inl TypeError"
  unfolding validBonds_def adjacency_def by (rule adjacency_fold_invalid) simp


lemma spec_pick_Nil: "spec_pick sc [] = None"
  by (simp add: spec_pick_def)

lemma spec_pick_Some:
  assumes "cs \<noteq> []"
  shows "\<exists>b. spec_pick sc cs = Some b \<and> b \<in> set cs \<and> (\<forall>c \<in> set cs. sc c \<le> sc b)"
proof -
  have "finite (sc ` set cs)" "sc ` set cs \<noteq> {}" using assms by auto
  then obtain b where b: "b \<in> set cs" "sc b = Max (sc ` set cs)"
    by (metis (no_types, lifting) Max_in imageE)
  then have "\<forall>c \<in> set cs. sc c \<le> sc b" by simp
  with b(1) have "find (\<lambda>j. \<forall>c \<in> set cs. sc c \<le> sc j) cs \<noteq> None"
    by (auto simp: find_None_iff)
  then obtain x where x: "find (\<lambda>j. \<forall>c \<in> set cs. sc c \<le> sc j) cs = Some x" by auto
  then have "x \<in> set cs \<and> (\<forall>c \<in> set cs. sc c \<le> sc x)"
    by (auto simp: find_Some_iff)
  with x show ?thesis by (auto simp: spec_pick_def)
qed

lemma find_first:
  "find P xs = Some x \<Longrightarrow> xs = ys @ x # zs \<Longrightarrow> x \<notin> set ys \<Longrightarrow> \<forall>y \<in> set ys. \<not> P y"
  by (induction ys arbitrary: xs) (auto split: if_splits)

lemma find_append':
  "find P (xs @ ys) = (case find P xs of None \<Rightarrow> find P ys | Some x \<Rightarrow> Some x)"
  by (induction xs) auto

lemma spec_pick_snoc:
  "spec_pick sc (cs @ [y]) =
     (case spec_pick sc cs of None \<Rightarrow> Some y | Some b \<Rightarrow> if sc b < sc y then Some y else Some b)"
proof (cases "cs = []")
  case True
  then show ?thesis by (simp add: spec_pick_def)
next
  case False
  then obtain b where b: "spec_pick sc cs = Some b" "b \<in> set cs" "\<forall>c \<in> set cs. sc c \<le> sc b"
    using spec_pick_Some by blast
  let ?P = "\<lambda>j. \<forall>c \<in> set cs. sc c \<le> sc j"
  let ?P' = "\<lambda>j. \<forall>c \<in> set (cs @ [y]). sc c \<le> sc j"
  show ?thesis
  proof (cases "sc b < sc y")
    case True
    then have "\<forall>c \<in> set cs. \<not> ?P' c" using b(3) by (auto simp: not_le intro: le_less_trans)
    then have "find ?P' cs = None" by (simp add: find_None_iff)
    moreover have "?P' y" using True b(3) by (auto intro: less_imp_le le_less_trans order.trans)
    ultimately have "find ?P' (cs @ [y]) = Some y"
      by (simp add: find_append')
    with True b(1) show ?thesis by (simp add: spec_pick_def)
  next
    case False
    then have eq: "?P' j = ?P j" if "j \<in> set cs" "sc b \<le> sc j" for j
      using that by auto
    have "find ?P' cs = find ?P cs"
    proof (rule find_cong[OF refl])
      fix j assume "j \<in> set cs"
      show "?P' j = ?P j"
      proof
        assume "?P' j" then show "?P j" by simp
      next
        assume "?P j"
        then have "sc b \<le> sc j" using b(2) by blast
        with False \<open>?P j\<close> show "?P' j" by auto
      qed
    qed
    then have "find ?P' (cs @ [y]) = Some b"
      using b(1) by (simp add: find_append' spec_pick_def)
    with False b(1) show ?thesis by (simp add: spec_pick_def)
  qed
qed

lemma foldl_bestStep:
  "foldl (bestStep C sc) (- 1, - 1) js =
     (case spec_pick sc (filter C js) of None \<Rightarrow> (- 1, - 1) | Some b \<Rightarrow> (int b, int (sc b)))"
proof (induction js rule: rev_induct)
  case Nil
  then show ?case by (simp add: spec_pick_Nil)
next
  case (snoc y js)
  show ?case
  proof (cases "C y")
    case False
    with snoc show ?thesis by (simp add: bestStep_def)
  next
    case True
    then show ?thesis
      using snoc by (auto simp: bestStep_def spec_pick_snoc split: option.splits)
  qed
qed


lemma encode_simps [simp]: "encode None = - 1" "encode (Some j) = int j"
  by (simp_all add: encode_def)

lemma encode_neg: "encode c \<noteq> - 1 \<longleftrightarrow> c \<noteq> None"
  by (cases c) simp_all

lemma score_eq:
  assumes A: "adjInv (bonds molA) nA adjA" and B: "adjInv (bonds molB) nB adjB"
    and sp: "length sp = i" "\<forall>k. Some k \<in> set sp \<longrightarrow> k < nB"
    and i: "i < nA" and j: "j < nB"
  shows "scoreOf (map encode sp @ replicate (nA - i) (- 1)) (adjA ! i) (adjB ! j) i
         = int (spec_score molA molB sp i j)"
proof -
  let ?m = "map encode sp @ replicate (nA - i) (- 1)"
  let ?P = "\<lambda>nei. nei < i \<and> ?m ! nei \<noteq> - 1 \<and> set_has (adjB ! j) (?m ! nei)"
  let ?Q = "\<lambda>nei. adjacent (bonds molA) nei i \<and>
                (case sp ! nei of None \<Rightarrow> False | Some k \<Rightarrow> adjacent (bonds molB) k j)"
  from A i have dA: "distinct (adjA ! i)" and sA: "set (adjA ! i) = {k. k < nA \<and> adjacent (bonds molA) i k}"
    by (simp_all add: adjInv_def)
  from B j have sB: "set (adjB ! j) = {k. k < nB \<and> adjacent (bonds molB) j k}"
    by (simp_all add: adjInv_def)
  have PQ: "(nei \<in> set (adjA ! i) \<and> ?P nei) = (nei < i \<and> ?Q nei)" for nei
  proof (cases "nei < i")
    case False
    then show ?thesis by simp
  next
    case True
    then have m: "?m ! nei = encode (sp ! nei)"
      using sp(1) by (simp add: nth_append)
    show ?thesis
    proof (cases "sp ! nei")
      case None
      then show ?thesis using True m by simp
    next
      case (Some k)
      then have "Some k \<in> set sp" using True sp(1) by (metis nth_mem)
      then have "k < nB" using sp(2) by blast
      then show ?thesis
        using True m Some i sA sB
        by (auto simp: set_has_def adjacent_sym[of _ i nei] adjacent_sym[of _ j k])
    qed
  qed
  have "length (filter ?P (adjA ! i)) = card ({x. ?P x} \<inter> set (adjA ! i))"
    using dA by (rule distinct_length_filter)
  also have "{x. ?P x} \<inter> set (adjA ! i) = {nei. nei < i \<and> ?Q nei}"
    using PQ by blast
  also have "card {nei. nei < i \<and> ?Q nei} = card ({x. ?Q x} \<inter> set [0..<i])"
    by (rule arg_cong[where f=card]) auto
  also have "\<dots> = length (filter ?Q [0..<i])"
    by (rule distinct_length_filter[symmetric]) simp
  finally show ?thesis
    by (simp add: scoreOf_def spec_score_def)
qed

lemma inner_eq:
  assumes A: "adjInv (bonds molA) nA adjA" and B: "adjInv (bonds molB) nB adjB"
    and rel: "stateRel nA nB k (m, u) (sp, used)" and k: "k < nA"
    and nB: "nB = length (atoms molB)"
  shows "foldl (innerStep molA molB adjA adjB m u k) (- 1, - 1) [0..<nB] =
     (case spec_pick (spec_score molA molB sp k) (spec_candidates molA molB used k) of
        None \<Rightarrow> (- 1, - 1) | Some b \<Rightarrow> (int b, int (spec_score molA molB sp k b)))"
proof -
  let ?C = "\<lambda>j. j \<notin> set used \<and> nth_opt (elementIndexes molA) k = nth_opt (elementIndexes molB) j"
  from rel have sp: "length sp = k" "\<forall>j. Some j \<in> set sp \<longrightarrow> j < nB"
    and m: "m = map encode sp @ replicate (nA - k) (- 1)"
    and u: "\<forall>j<nB. u ! j = (j \<in> set used)"
    by (simp_all add: stateRel_def)
  have "foldl (innerStep molA molB adjA adjB m u k) (- 1, - 1) [0..<nB]
      = foldl (bestStep ?C (spec_score molA molB sp k)) (- 1, - 1) [0..<nB]"
  proof (rule foldl_cong[OF refl refl])
    fix best :: "int \<times> int" and j assume "j \<in> set [0..<nB]"
    then have j: "j < nB" by simp
    have "scoreOf m (adjA ! k) (adjB ! j) k = int (spec_score molA molB sp k j)"
      unfolding m by (rule score_eq[OF A B sp k j])
    then show "innerStep molA molB adjA adjB m u k best j = bestStep ?C (spec_score molA molB sp k) best j"
      using u j by (cases best) (simp add: innerStep_def bestStep_def Let_def)
  qed
  then show ?thesis
    by (simp add: foldl_bestStep spec_candidates_def nB)
qed

lemma spec_candidates_set:
  "b \<in> set (spec_candidates molA molB used i) \<Longrightarrow> b < length (atoms molB) \<and> b \<notin> set used"
  by (simp add: spec_candidates_def)

lemma outer_step_rel:
  assumes A: "adjInv (bonds molA) nA adjA" and B: "adjInv (bonds molB) nB adjB"
    and rel: "stateRel nA nB k cst sst" and k: "k < nA"
    and nB: "nB = length (atoms molB)"
  shows "stateRel nA nB (Suc k) (outerStep molA molB adjA adjB nB cst k) (spec_step molA molB sst k)"
proof -
  obtain m u where cst: "cst = (m, u)" by (cases cst)
  obtain sp used where sst: "sst = (sp, used)" by (cases sst)
  note rel' = rel[unfolded cst sst]
  from rel' have sp: "length sp = k" "\<forall>j. Some j \<in> set sp \<longrightarrow> j < nB"
    and m: "m = map encode sp @ replicate (nA - k) (- 1)"
    and lu: "length u = nB"
    and u: "\<forall>j<nB. u ! j = (j \<in> set used)"
    and used: "set used = {j. Some j \<in> set sp}"
    and inj: "\<forall>i<length sp. \<forall>i'<length sp. i \<noteq> i' \<and> sp ! i \<noteq> None \<longrightarrow> sp ! i \<noteq> sp ! i'"
    by (simp_all add: stateRel_def)
  have rep: "replicate (nA - k) (- 1 :: int) = - 1 # replicate (nA - Suc k) (- 1)"
    using k by (cases "nA - k") (auto simp: Suc_diff_Suc)
  note inner = inner_eq[OF A B rel' k nB]
  show ?thesis
  proof (cases "spec_pick (spec_score molA molB sp k) (spec_candidates molA molB used k)")
    case None
    have "\<forall>i<Suc k. \<forall>i'<Suc k. i \<noteq> i' \<and> (sp @ [None]) ! i \<noteq> None \<longrightarrow> (sp @ [None]) ! i \<noteq> (sp @ [None]) ! i'"
      using inj sp(1) by (auto simp: nth_append less_Suc_eq)
    then show ?thesis
      using None inner sp lu u used
      by (simp add: cst sst outerStep_def spec_step_def stateRel_def m rep)
  next
    case (Some b)
    then have "b \<in> set (spec_candidates molA molB used k)"
      by (auto simp: spec_pick_def find_Some_iff)
    then have b: "b < nB" "b \<notin> set used"
      using spec_candidates_set nB by blast+
    have upd: "(map encode sp @ replicate (nA - k) (- 1))[k := int b]
        = map encode (sp @ [Some b]) @ replicate (nA - Suc k) (- 1)"
      using sp(1) by (simp add: rep list_update_append)
    have "\<forall>j<nB. u[b := True] ! j = (j \<in> set (b # used))"
      using u lu b by (auto simp: nth_list_update)
    moreover have "\<forall>i<Suc k. \<forall>i'<Suc k. i \<noteq> i' \<and> (sp @ [Some b]) ! i \<noteq> None \<longrightarrow> (sp @ [Some b]) ! i \<noteq> (sp @ [Some b]) ! i'"
    proof (intro allI impI)
      fix i i' assume i: "i < Suc k" "i' < Suc k" "i \<noteq> i' \<and> (sp @ [Some b]) ! i \<noteq> None"
      have nb: "sp ! x \<noteq> Some b" if "x < k" for x
        using that b(2) used sp(1) by (metis mem_Collect_eq nth_mem)
      consider "i < k" "i' < k" | "i = k" "i' < k" | "i < k" "i' = k"
        using i by (auto simp: less_Suc_eq)
      then show "(sp @ [Some b]) ! i \<noteq> (sp @ [Some b]) ! i'"
      proof cases
        case 1
        then show ?thesis
          using i(3) inj sp(1) by (simp add: nth_append)
      next
        case 2
        then show ?thesis
          using nb[of i'] sp(1) by (simp add: nth_append)
      next
        case 3
        then show ?thesis
          using nb[of i] sp(1) by (simp add: nth_append)
      qed
    qed
    ultimately show ?thesis
      using inner Some sp lu used b upd
      by (simp add: cst sst outerStep_def spec_step_def stateRel_def m) auto
  qed
qed

lemma mappingLoop_Suc:
  "mappingLoop molA molB adjA adjB (Suc k) =
     outerStep molA molB adjA adjB (length (atoms molB)) (mappingLoop molA molB adjA adjB k) k"
  by (simp add: mappingLoop_def)

lemma spec_resolver_Suc:
  "spec_resolver molA molB (Suc k) = spec_step molA molB (spec_resolver molA molB k) k"
  by (simp add: spec_resolver_def)

lemma loop_rel:
  assumes A: "adjInv (bonds molA) (length (atoms molA)) adjA"
    and B: "adjInv (bonds molB) (length (atoms molB)) adjB"
  shows "k \<le> length (atoms molA) \<Longrightarrow>
     stateRel (length (atoms molA)) (length (atoms molB)) k
       (mappingLoop molA molB adjA adjB k) (spec_resolver molA molB k)"
proof (induction k)
  case 0
  then show ?case
    by (simp add: mappingLoop_def spec_resolver_def stateRel_def)
next
  case (Suc k)
  then have "stateRel (length (atoms molA)) (length (atoms molB)) k
       (mappingLoop molA molB adjA adjB k) (spec_resolver molA molB k)" and "k < length (atoms molA)"
    by simp_all
  from outer_step_rel[OF A B this refl] show ?case
    by (simp add: mappingLoop_Suc spec_resolver_Suc)
qed


lemma spec_resolver_fst_Suc:
  "fst (spec_resolver molA molB (Suc i)) = fst (spec_resolver molA molB i) @
     [spec_pick (spec_score molA molB (fst (spec_resolver molA molB i)) i)
        (spec_candidates molA molB (snd (spec_resolver molA molB i)) i)]"
  by (simp add: spec_resolver_Suc spec_step_def case_prod_beta Let_def)

lemma spec_resolver_length: "length (fst (spec_resolver molA molB k)) = k"
  by (induction k) (simp_all add: spec_resolver_fst_Suc, simp add: spec_resolver_def)

lemma spec_resolver_take:
  "k \<le> n \<Longrightarrow> take k (fst (spec_resolver molA molB n)) = fst (spec_resolver molA molB k)"
proof (induction n)
  case 0
  then show ?case by (simp add: spec_resolver_def)
next
  case (Suc n)
  show ?case
  proof (cases "k = Suc n")
    case True
    then show ?thesis by (simp add: spec_resolver_length)
  next
    case False
    with Suc show ?thesis
      by (simp add: spec_resolver_fst_Suc spec_resolver_length)
  qed
qed

lemma spec_resolver_nth:
  assumes "i < n"
  shows "fst (spec_resolver molA molB n) ! i =
     spec_pick (spec_score molA molB (fst (spec_resolver molA molB i)) i)
        (spec_candidates molA molB (snd (spec_resolver molA molB i)) i)"
proof -
  have "fst (spec_resolver molA molB n) ! i = take (Suc i) (fst (spec_resolver molA molB n)) ! i"
    by simp
  also have "\<dots> = fst (spec_resolver molA molB (Suc i)) ! i"
    using assms by (simp add: spec_resolver_take)
  also have "\<dots> = spec_pick (spec_score molA molB (fst (spec_resolver molA molB i)) i)
        (spec_candidates molA molB (snd (spec_resolver molA molB i)) i)"
    by (simp add: spec_resolver_fst_Suc nth_append spec_resolver_length)
  finally show ?thesis .
qed

lemma spec_pick_None: "spec_pick sc cs = None \<longleftrightarrow> cs = []"
  using spec_pick_Some[of cs sc] by (cases "cs = []") (auto simp: spec_pick_Nil)

lemma computeAtomMapping_Inr:
  assumes "adjacency (bonds molA) (length (atoms molA)) = Inr adjA"
    and "adjacency (bonds molB) (length (atoms molB)) = Inr adjB"
  shows "computeAtomMapping molA molB = Inr (fst (mappingLoop molA molB adjA adjB (length (atoms molA))))"
  using assms by (simp add: computeAtomMapping_def Let_def)

lemma mappingLoop_refines:
  assumes "adjacency (bonds molA) (length (atoms molA)) = Inr adjA"
    and "adjacency (bonds molB) (length (atoms molB)) = Inr adjB"
    and "k \<le> length (atoms molA)"
  shows "fst (mappingLoop molA molB adjA adjB k) =
     map encode (fst (spec_resolver molA molB k)) @ replicate (length (atoms molA) - k) (- 1)"
  using loop_rel[OF adjacency_inv[OF assms(1)] adjacency_inv[OF assms(2)] assms(3)]
  by (simp add: stateRel_def case_prod_beta)

text \<open>
  C2. For two molecules whose bonds join indices of their atoms the code returns the
  map of the specification's resolver: the atoms of A in ascending order; for atom \<open>i\<close>
  the candidates are the unused atoms \<open>j\<close> of B with the element tag of \<open>i\<close>; the score
  of \<open>j\<close> counts the lower-index neighbours of \<open>i\<close> mapped to a neighbour of \<open>j\<close>; the
  choice is the first candidate of the highest score and is marked used at once; \<open>i\<close>
  is unmatched exactly when there is no candidate. After \<open>k\<close> passes the code's
  mapping holds the first \<open>k\<close> choices and \<open>-1\<close> elsewhere, and the final entry of atom
  \<open>i\<close> is the choice made at pass \<open>i\<close>: no choice is revised.
\<close>

theorem computeAtomMapping_greedy:
  assumes "validBonds molA" "validBonds molB"
  shows "computeAtomMapping molA molB
           = Inr (map encode (fst (spec_resolver molA molB (length (atoms molA)))))
   \<and> (\<forall>adjA adjB k. adjacency (bonds molA) (length (atoms molA)) = Inr adjA
          \<and> adjacency (bonds molB) (length (atoms molB)) = Inr adjB \<and> k \<le> length (atoms molA)
        \<longrightarrow> fst (mappingLoop molA molB adjA adjB k)
              = map encode (fst (spec_resolver molA molB k)) @ replicate (length (atoms molA) - k) (- 1))
   \<and> (\<forall>i < length (atoms molA).
         fst (spec_resolver molA molB (length (atoms molA))) ! i
           = spec_pick (spec_score molA molB (fst (spec_resolver molA molB i)) i)
               (spec_candidates molA molB (snd (spec_resolver molA molB i)) i)
         \<and> ((map encode (fst (spec_resolver molA molB (length (atoms molA)))) ! i = - 1)
              = (spec_candidates molA molB (snd (spec_resolver molA molB i)) i = [])))"
proof -
  obtain adjA adjB where adj: "adjacency (bonds molA) (length (atoms molA)) = Inr adjA"
      "adjacency (bonds molB) (length (atoms molB)) = Inr adjB"
    using assms adjacency_valid by blast
  have 1: "computeAtomMapping molA molB
           = Inr (map encode (fst (spec_resolver molA molB (length (atoms molA)))))"
    using mappingLoop_refines[OF adj order_refl] by (simp add: computeAtomMapping_Inr[OF adj])
  have 3: "(map encode (fst (spec_resolver molA molB (length (atoms molA)))) ! i = - 1)
              = (spec_candidates molA molB (snd (spec_resolver molA molB i)) i = [])"
    if "i < length (atoms molA)" for i
    using that spec_pick_None[of "spec_score molA molB (fst (spec_resolver molA molB i)) i"
        "spec_candidates molA molB (snd (spec_resolver molA molB i)) i"]
    by (auto simp: spec_resolver_length spec_resolver_nth encode_def split: option.splits)
  show ?thesis
    using 1 3 mappingLoop_refines spec_resolver_nth by blast
qed

theorem computeAtomMapping_greedy_witness:
  "validBonds chainA \<and> validBonds fourB \<and> computeAtomMapping chainA fourB = Inr [0, 2, 3]"
proof -
  have v: "validBonds chainA" "validBonds fourB"
    by (simp_all add: validBonds_def chainA_def fourB_def validIndex_def)
  have "map encode (fst (spec_resolver chainA fourB (length (atoms chainA)))) = [0, 2, 3]"
    by code_simp
  then show ?thesis
    using v computeAtomMapping_greedy [OF v] by simp
qed

text \<open>
  C3. The resolver returns a map whenever the bonds of both molecules join indices of
  their atoms; a map it returns has one entry per atom of A, every entry is \<open>-1\<close> or
  an index of B, and no two defined entries are equal.
\<close>

theorem computeAtomMapping_injective:
  "(validBonds molA \<and> validBonds molB \<longrightarrow> (\<exists>m. computeAtomMapping molA molB = Inr m))
   \<and> (computeAtomMapping molA molB = Inr m \<longrightarrow>
        length m = length (atoms molA)
        \<and> (\<forall>i<length m. \<forall>k<length m. i \<noteq> k \<and> m ! i \<noteq> - 1 \<and> m ! k \<noteq> - 1 \<longrightarrow> m ! i \<noteq> m ! k)
        \<and> (\<forall>i<length m. m ! i = - 1 \<or> (0 \<le> m ! i \<and> m ! i < int (length (atoms molB)))))"
proof (intro conjI impI)
  assume "validBonds molA \<and> validBonds molB"
  then obtain adjA adjB where adj: "adjacency (bonds molA) (length (atoms molA)) = Inr adjA"
      "adjacency (bonds molB) (length (atoms molB)) = Inr adjB"
    using adjacency_valid by blast
  then show "\<exists>m. computeAtomMapping molA molB = Inr m"
    by (simp add: computeAtomMapping_Inr)
next
  assume r: "computeAtomMapping molA molB = Inr m"
  then obtain adjA adjB where adj: "adjacency (bonds molA) (length (atoms molA)) = Inr adjA"
      "adjacency (bonds molB) (length (atoms molB)) = Inr adjB"
    by (auto simp: computeAtomMapping_def Let_def split: sum.splits)
  define sp where "sp = fst (spec_resolver molA molB (length (atoms molA)))"
  have rel: "stateRel (length (atoms molA)) (length (atoms molB)) (length (atoms molA))
       (mappingLoop molA molB adjA adjB (length (atoms molA)))
       (spec_resolver molA molB (length (atoms molA)))"
    using loop_rel[OF adjacency_inv[OF adj(1)] adjacency_inv[OF adj(2)] order_refl] .
  have m: "m = map encode sp"
    using r rel by (simp add: computeAtomMapping_Inr[OF adj] stateRel_def case_prod_beta sp_def)
  have len: "length sp = length (atoms molA)"
    by (simp add: sp_def spec_resolver_length)
  have rng: "\<forall>j. Some j \<in> set sp \<longrightarrow> j < length (atoms molB)"
    and inj: "\<forall>i<length sp. \<forall>i'<length sp. i \<noteq> i' \<and> sp ! i \<noteq> None \<longrightarrow> sp ! i \<noteq> sp ! i'"
    using rel by (simp_all add: stateRel_def case_prod_beta sp_def)
  show "length m = length (atoms molA)"
    by (simp add: m len)
  show "\<forall>i<length m. \<forall>k<length m. i \<noteq> k \<and> m ! i \<noteq> - 1 \<and> m ! k \<noteq> - 1 \<longrightarrow> m ! i \<noteq> m ! k"
  proof (intro allI impI)
    fix i k assume i: "i < length m" and k: "k < length m"
      and h: "i \<noteq> k \<and> m ! i \<noteq> - 1 \<and> m ! k \<noteq> - 1"
    then obtain a b where ab: "sp ! i = Some a" "sp ! k = Some b"
      using m by (cases "sp ! i"; cases "sp ! k") auto
    with inj i k h have "a \<noteq> b" unfolding m by (metis length_map option.distinct(1))
    then show "m ! i \<noteq> m ! k"
      using i k ab by (simp add: m)
  qed
  show "\<forall>i<length m. m ! i = - 1 \<or> (0 \<le> m ! i \<and> m ! i < int (length (atoms molB)))"
  proof (intro allI impI)
    fix i assume i: "i < length m"
    show "m ! i = - 1 \<or> (0 \<le> m ! i \<and> m ! i < int (length (atoms molB)))"
    proof (cases "sp ! i")
      case None
      then show ?thesis using i by (simp add: m)
    next
      case (Some a)
      then have "Some a \<in> set sp" using i m by (metis length_map nth_mem)
      then have "a < length (atoms molB)" using rng by blast
      then show ?thesis using i Some by (simp add: m)
    qed
  qed
qed

theorem computeAtomMapping_injective_witness:
  "validBonds chainA \<and> validBonds fourB \<and> computeAtomMapping chainA fourB = Inr [0, 2, 3]
   \<and> length [0, 2, 3 :: int] = length (atoms chainA) \<and> [0, 2, 3 :: int] ! 1 \<noteq> [0, 2, 3] ! 2"
proof -
  have v: "validBonds chainA \<and> validBonds fourB"
    by (simp add: validBonds_def chainA_def fourB_def validIndex_def)
  have r: "computeAtomMapping chainA fourB = Inr [0, 2, 3]"
    by code_simp
  show ?thesis
    using v r computeAtomMapping_injective [of chainA fourB "[0, 2, 3]"] by simp
qed

lemma spec_pick_in: "spec_pick sc cs = Some b \<Longrightarrow> b \<in> set cs"
  by (auto simp: spec_pick_def find_Some_iff)

lemma spec_resolver_tags:
  assumes "i < k" "fst (spec_resolver molA molB k) ! i = Some j"
  shows "nth_opt (elementIndexes molA) i = nth_opt (elementIndexes molB) j \<and> j < length (atoms molB)"
proof -
  from assms have "spec_pick (spec_score molA molB (fst (spec_resolver molA molB i)) i)
        (spec_candidates molA molB (snd (spec_resolver molA molB i)) i) = Some j"
    by (simp add: spec_resolver_nth)
  then have "j \<in> set (spec_candidates molA molB (snd (spec_resolver molA molB i)) i)"
    by (rule spec_pick_in)
  then show ?thesis
    by (simp add: spec_candidates_def)
qed

text \<open>
  Matched pairs share the element tag. In a map the resolver returns, an entry other than \<open>-1\<close> is an index of B, and
  the atom of A and its partner in B have the same element index.
\<close>

theorem matched_pairs_share_tag:
  assumes "computeAtomMapping molA molB = Inr m" "i < length m" "m ! i \<noteq> - 1"
  shows "0 \<le> m ! i \<and> m ! i < int (length (atoms molB))
     \<and> nth_opt (elementIndexes molA) i = nth_opt (elementIndexes molB) (nat (m ! i))"
proof -
  from assms(1) obtain adjA adjB where adj: "adjacency (bonds molA) (length (atoms molA)) = Inr adjA"
      "adjacency (bonds molB) (length (atoms molB)) = Inr adjB"
    by (auto simp: computeAtomMapping_def Let_def split: sum.splits)
  define sp where "sp = fst (spec_resolver molA molB (length (atoms molA)))"
  have m: "m = map encode sp"
    using assms(1) mappingLoop_refines[OF adj order_refl]
    by (simp add: computeAtomMapping_Inr[OF adj] sp_def)
  have len: "length sp = length (atoms molA)"
    by (simp add: sp_def spec_resolver_length)
  from assms(2,3) obtain j where j: "sp ! i = Some j"
    unfolding m by (cases "sp ! i") auto
  from spec_resolver_tags[of i "length (atoms molA)" molA molB j] j assms(2) len
  have "nth_opt (elementIndexes molA) i = nth_opt (elementIndexes molB) j \<and> j < length (atoms molB)"
    by (simp add: sp_def m)
  then show ?thesis
    using assms(2) j by (simp add: m)
qed

theorem matched_pairs_share_tag_witness:
  "computeAtomMapping chainA fourB = Inr [0, 2, 3]
   \<and> nth_opt (elementIndexes chainA) 1 = nth_opt (elementIndexes fourB) 2"
proof -
  have r: "computeAtomMapping chainA fourB = Inr [0, 2, 3]"
    by code_simp
  show ?thesis
    using r matched_pairs_share_tag [OF r, of 1] by simp
qed

text \<open>
  Invalid bonds. When a bond of either molecule has an endpoint that is not an index of its atoms,
  \<open>computeAtomMapping\<close> throws the TypeError of \<open>adjacency\<close>.
\<close>

theorem computeAtomMapping_invalid_bond:
  "\<not> validBonds molA \<or> \<not> validBonds molB \<Longrightarrow> computeAtomMapping molA molB = Inl TypeError"
proof -
  assume h: "\<not> validBonds molA \<or> \<not> validBonds molB"
  show ?thesis
  proof (cases "validBonds molA")
    case False
    then show ?thesis
      by (simp add: computeAtomMapping_def Let_def adjacency_invalid)
  next
    case True
    then obtain adjA where "adjacency (bonds molA) (length (atoms molA)) = Inr adjA"
      using adjacency_valid by blast
    moreover from True h have "adjacency (bonds molB) (length (atoms molB)) = Inl TypeError"
      by (simp add: adjacency_invalid)
    ultimately show ?thesis
      by (simp add: computeAtomMapping_def Let_def)
  qed
qed

theorem computeAtomMapping_invalid_bond_witness:
  "\<not> validBonds (chainA\<lparr>bonds := [\<lparr>bfrom = Some 0, bto = Some 3, btype = Some 1\<rparr>]\<rparr>)
   \<and> computeAtomMapping (chainA\<lparr>bonds := [\<lparr>bfrom = Some 0, bto = Some 3, btype = Some 1\<rparr>]\<rparr>) fourB
       = Inl TypeError"
proof -
  have v: "\<not> validBonds (chainA\<lparr>bonds := [\<lparr>bfrom = Some 0, bto = Some 3, btype = Some 1\<rparr>]\<rparr>)"
    by (simp add: validBonds_def chainA_def validIndex_def)
  then show ?thesis
    using computeAtomMapping_invalid_bond [of "chainA\<lparr>bonds := [\<lparr>bfrom = Some 0, bto = Some 3, btype = Some 1\<rparr>]\<rparr>" fourB]
    by simp
qed

section \<open>The parser, the alignment block and the sequence\<close>

lemma parseSdf_lengths:
  "parseSdf sdf = Inr (ats, eis, bs) \<Longrightarrow> length ats = length eis \<and> ats \<noteq> []"
  by (auto simp: parseSdf_def Let_def split: if_splits)

lemma length_normalizeAtoms: "length (normalizeAtoms ats) = length ats"
  by (simp add: normalizeAtoms_def Let_def)

lemma alignToPrevious_length:
  assumes "alignToPrevious rnd ats eis bs prev = Inr al"
  shows "length (fst al) = length ats"
proof (cases prev)
  case None
  with assms show ?thesis by (auto simp: alignToPrevious_def)
next
  case (Some pm)
  show ?thesis
  proof (cases "computeAtomMapping \<lparr>atoms = ats, elementIndexes = eis, bonds = bs, atomMapping = None\<rparr> pm")
    case (Inl e)
    with assms Some show ?thesis by (simp add: alignToPrevious_def)
  next
    case (Inr mapping)
    let ?pairs = "matchedPairs ats (atoms pm) mapping"
    show ?thesis
    proof (cases "computeAlignment rnd (map fst ?pairs) (map snd ?pairs)")
      case (Inl e)
      with assms Some Inr show ?thesis
        by (auto simp: alignToPrevious_def Let_def split: if_splits)
    next
      case Rt: (Inr Rt)
      with assms Some Inr show ?thesis
        by (auto simp: alignToPrevious_def Let_def split: if_splits)
    qed
  qed
qed

lemma getMoleculePoints_Body:
  "getMoleculePoints rnd (Body sdf) prev =
     (case parseSdf sdf of
        Inl e \<Rightarrow> Inl e
      | Inr parsed \<Rightarrow>
          (case alignToPrevious rnd (fst parsed) (fst (snd parsed)) (snd (snd parsed)) prev of
             Inl e \<Rightarrow> Inl e
           | Inr aligned \<Rightarrow>
               Inr \<lparr>atoms = normalizeAtoms (fst aligned), elementIndexes = fst (snd parsed),
                    bonds = snd (snd parsed), atomMapping = snd aligned\<rparr>))"
  by (cases "parseSdf sdf") (simp_all add: getMoleculePoints_def case_prod_beta)

lemma getMoleculePoints_lengths:
  "getMoleculePoints rnd response prev = Inr mol \<Longrightarrow>
     length (atoms mol) = length (elementIndexes mol) \<and> atoms mol \<noteq> []"
proof -
  assume r: "getMoleculePoints rnd response prev = Inr mol"
  then obtain sdf where resp: "response = Body sdf"
    by (cases response) (simp_all add: getMoleculePoints_def)
  from r obtain parsed where p: "parseSdf sdf = Inr parsed"
    unfolding resp getMoleculePoints_Body by (cases "parseSdf sdf") simp_all
  obtain ats eis bs where parsed: "parsed = (ats, eis, bs)"
    by (cases parsed) auto
  from r obtain al where a: "alignToPrevious rnd ats eis bs prev = Inr al"
    unfolding resp getMoleculePoints_Body p parsed
    by (cases "alignToPrevious rnd ats eis bs prev") simp_all
  have m: "mol = \<lparr>atoms = normalizeAtoms (fst al), elementIndexes = eis, bonds = bs, atomMapping = snd al\<rparr>"
    using r unfolding resp getMoleculePoints_Body p parsed by (simp add: a)
  have 1: "length (normalizeAtoms (fst al)) = length ats"
    using alignToPrevious_length[OF a] by (simp add: length_normalizeAtoms)
  have 2: "length ats = length eis" and 3: "ats \<noteq> []"
    using parseSdf_lengths p parsed by blast+
  from 1 3 have "normalizeAtoms (fst al) \<noteq> []"
    by (metis length_0_conv)
  with 1 2 show ?thesis
    by (simp add: m)
qed

lemma parse_one: "parseSdf oneAtomSdf = Inr ([(Fin 0, Fin 0, Fin 0)], [1], [\<lparr>bfrom = Some 0, bto = Some 4, btype = Some 1\<rparr>])"
  by code_simp

lemma parse_none: "parseSdf noAtomSdf = Inl ParsedZeroAtoms"
  by code_simp

lemma normalize_origin: "normalizeAtoms [(Fin 0, Fin 0, Fin 0)] = [(Fin 0, Fin 0, Fin 0)]"
  by code_simp

lemma get_one: "getMoleculePoints rnd (Body oneAtomSdf) None
     = Inr \<lparr>atoms = [(Fin 0, Fin 0, Fin 0)], elementIndexes = [1],
            bonds = [\<lparr>bfrom = Some 0, bto = Some 4, btype = Some 1\<rparr>], atomMapping = None\<rparr>"
  by (simp add: getMoleculePoints_Body parse_one alignToPrevious_def normalize_origin)

lemma get_none: "getMoleculePoints rnd (Body noAtomSdf) prev = Inl ParsedZeroAtoms"
  by (simp add: getMoleculePoints_Body parse_none)

text \<open>
  C9 (as amended). A record that parses gives as many element indexes as atoms, and at
  least one atom; so does the molecule \<open>getMoleculePoints\<close> returns. The bonds are the
  bond lines read field by field, unchecked.
\<close>

theorem parser_lengths:
  "(parseSdf sdf = Inr (ats, eis, bs) \<longrightarrow>
      length ats = length eis \<and> ats \<noteq> []
      \<and> bs = map parseBondLine (bondLinesOf (split_on (CHR 0x0A) sdf)))
   \<and> (getMoleculePoints rnd response prev = Inr mol \<longrightarrow>
      length (atoms mol) = length (elementIndexes mol) \<and> atoms mol \<noteq> [])"
  using parseSdf_lengths[of sdf ats eis bs] getMoleculePoints_lengths[of rnd response prev mol]
  by (auto simp: parseSdf_def Let_def split: if_splits)

theorem parser_lengths_witness:
  "parseSdf oneAtomSdf
     = Inr ([(Fin 0, Fin 0, Fin 0)], [1], [\<lparr>bfrom = Some 0, bto = Some 4, btype = Some 1\<rparr>])
   \<and> getMoleculePoints (\<lambda>k. Fin (1 / 2)) (Body oneAtomSdf) None
     = Inr \<lparr>atoms = [(Fin 0, Fin 0, Fin 0)], elementIndexes = [1],
            bonds = [\<lparr>bfrom = Some 0, bto = Some 4, btype = Some 1\<rparr>], atomMapping = None\<rparr>
   \<and> length [(Fin 0, Fin 0, Fin 0)] = length [1 :: nat]
   \<and> [\<lparr>bfrom = Some 0, bto = Some 4, btype = Some 1\<rparr>]
       = map parseBondLine (bondLinesOf (split_on (CHR 0x0A) oneAtomSdf))"
  using parse_one get_one [of "\<lambda>k. Fin (1 / 2)"]
    parser_lengths [of oneAtomSdf "[(Fin 0, Fin 0, Fin 0)]" "[1]"
      "[\<lparr>bfrom = Some 0, bto = Some 4, btype = Some 1\<rparr>]" "\<lambda>k. Fin (1 / 2)" "Body oneAtomSdf" None
      "\<lparr>atoms = [(Fin 0, Fin 0, Fin 0)], elementIndexes = [1],
        bonds = [\<lparr>bfrom = Some 0, bto = Some 4, btype = Some 1\<rparr>], atomMapping = None\<rparr>"]
  by simp

text \<open>
  C9 (counterexample). The record with one atom and the bond line \<open>1 5\<close> parses; its
  bond ends at index \<open>4\<close> of a one-atom molecule, so the invariant of the data model
  fails for the molecule returned.
\<close>

theorem parser_invariant_counterexample:
  "parseSdf oneAtomSdf
     = Inr ([(Fin 0, Fin 0, Fin 0)], [1], [\<lparr>bfrom = Some 0, bto = Some 4, btype = Some 1\<rparr>])
   \<and> getMoleculePoints (\<lambda>k. Fin (1 / 2)) (Body oneAtomSdf) None
     = Inr \<lparr>atoms = [(Fin 0, Fin 0, Fin 0)], elementIndexes = [1],
            bonds = [\<lparr>bfrom = Some 0, bto = Some 4, btype = Some 1\<rparr>], atomMapping = None\<rparr>
   \<and> \<not> specInvariant \<lparr>atoms = [(Fin 0, Fin 0, Fin 0)], elementIndexes = [1],
            bonds = [\<lparr>bfrom = Some 0, bto = Some 4, btype = Some 1\<rparr>], atomMapping = None\<rparr>"
  by (simp add: parse_one get_one specInvariant_def validIndex_def)

lemma loadLoop_append:
  "loadLoop prev sets good = (sets', None) \<Longrightarrow> prev = lastOf sets \<Longrightarrow>
   loadLoop prev sets (good @ cs) = loadLoop (lastOf sets') sets' cs"
proof (induction good arbitrary: prev sets)
  case Nil
  then show ?case by simp
next
  case (Cons c good)
  show ?case
  proof (cases "getMoleculePoints (snd c) (fst c) prev")
    case (Inl e)
    with Cons.prems show ?thesis by simp
  next
    case (Inr mol)
    have "Some mol = lastOf (sets @ [mol])" by (simp add: lastOf_def)
    from Cons.IH[OF _ this] Cons.prems(1) Inr show ?thesis by simp
  qed
qed

text \<open>
  C6 (as amended). When the compounds before \<open>c\<close> all build and \<open>getMoleculePoints\<close>
  throws for \<open>c\<close>, the loop ends there: \<open>POSITION_SETS\<close> holds the molecules built before
  \<open>c\<close>, the exception leaves \<open>loadMoleculesOnce\<close>, and no compound after \<open>c\<close> is built,
  whatever it is.
\<close>

theorem loadMoleculesOnce_stops:
  assumes "loadMoleculesOnce [] good = (mols, None)"
    and "getMoleculePoints (snd c) (fst c) (lastOf mols) = Inl e"
  shows "loadMoleculesOnce [] (good @ c # rest) = (mols, Some e)"
proof -
  from assms(1) have "loadLoop None [] good = (mols, None)"
    by (simp add: loadMoleculesOnce_def)
  from loadLoop_append[OF this, of "c # rest"] assms(2) show ?thesis
    by (simp add: loadMoleculesOnce_def lastOf_def)
qed

theorem loadMoleculesOnce_stops_witness:
  "loadMoleculesOnce []
     [(Body oneAtomSdf, \<lambda>k. Fin (1 / 2)), (Body noAtomSdf, \<lambda>k. Fin (1 / 2)),
      (Body oneAtomSdf, \<lambda>k. Fin (1 / 2))]
     = ([\<lparr>atoms = [(Fin 0, Fin 0, Fin 0)], elementIndexes = [1],
            bonds = [\<lparr>bfrom = Some 0, bto = Some 4, btype = Some 1\<rparr>], atomMapping = None\<rparr>],
        Some ParsedZeroAtoms)"
proof -
  let ?m = "\<lparr>atoms = [(Fin 0, Fin 0, Fin 0)], elementIndexes = [1],
            bonds = [\<lparr>bfrom = Some 0, bto = Some 4, btype = Some 1\<rparr>], atomMapping = None\<rparr>"
  have 1: "loadMoleculesOnce [] [(Body oneAtomSdf, \<lambda>k. Fin (1 / 2))] = ([?m], None)"
    by (simp add: loadMoleculesOnce_def get_one)
  have 2: "getMoleculePoints (snd (Body noAtomSdf, \<lambda>k. Fin (1 / 2)))
      (fst (Body noAtomSdf, \<lambda>k. Fin (1 / 2))) (lastOf [?m]) = Inl ParsedZeroAtoms"
    by (simp add: get_none)
  show ?thesis
    using loadMoleculesOnce_stops[OF 1 2, of "[(Body oneAtomSdf, \<lambda>k. Fin (1 / 2))]"] by simp
qed

text \<open>
  C6 (counterexample). The first record parses to zero atoms, the second is a record
  that builds when it is read alone: the sequence ends with the exception of the first
  and \<open>POSITION_SETS\<close> stays empty, so the second element is not built.
\<close>

theorem loadMoleculesOnce_skip_counterexample:
  "loadMoleculesOnce [] [(Body noAtomSdf, \<lambda>k. Fin (1 / 2)), (Body oneAtomSdf, \<lambda>k. Fin (1 / 2))]
     = ([], Some ParsedZeroAtoms)
   \<and> getMoleculePoints (\<lambda>k. Fin (1 / 2)) (Body oneAtomSdf) None
     = Inr \<lparr>atoms = [(Fin 0, Fin 0, Fin 0)], elementIndexes = [1],
            bonds = [\<lparr>bfrom = Some 0, bto = Some 4, btype = Some 1\<rparr>], atomMapping = None\<rparr>"
  by (simp add: loadMoleculesOnce_def get_one get_none)

lemma identity_transform:
  "vadd (multiplyMatrixVec identityMat (fin3 p)) zeroVec = fin3 p"
  by (simp add: vadd_def multiplyMatrixVec_def identityMat_def zeroVec_def fin3_def)

text \<open>
  C1. For an empty list of pairs \<open>computeAlignment\<close> returns the identity rotation and
  the zero translation. It is called in one place, the block of \<open>getMoleculePoints\<close> that
  aligns to the previous molecule, and there from three matched pairs on: with fewer
  than three matched pairs the block leaves every atom where it is, which is what the
  identity rotation and the zero translation do to every point.
\<close>

theorem alignment_below_three_pairs:
  "computeAlignment rnd [] pointsB = Inr (identityMat, zeroVec)
   \<and> identityMat = ((Fin 1, Fin 0, Fin 0), (Fin 0, Fin 1, Fin 0), (Fin 0, Fin 0, Fin 1))
   \<and> zeroVec = (Fin 0, Fin 0, Fin 0)
   \<and> (computeAtomMapping \<lparr>atoms = ats, elementIndexes = eis, bonds = bs, atomMapping = None\<rparr> prev
          = Inr mapping
        \<and> length (matchedPairs ats (atoms prev) mapping) < 3
      \<longrightarrow> alignToPrevious rnd ats eis bs (Some prev) = Inr (ats, Some mapping))
   \<and> map (\<lambda>a. vadd (multiplyMatrixVec identityMat a) zeroVec) (map fin3 ps) = map fin3 ps"
  by (simp add: computeAlignment_def alignToPrevious_def Let_def identity_transform)
     (simp add: identityMat_def zeroVec_def)

theorem alignment_below_three_pairs_witness:
  "computeAtomMapping
     \<lparr>atoms = [(Fin 1, Fin 2, Fin 3)], elementIndexes = [1], bonds = [], atomMapping = None\<rparr> chainA
     = Inr [0]
   \<and> length (matchedPairs [(Fin 1, Fin 2, Fin 3)] (atoms chainA) [0]) = 1
   \<and> alignToPrevious (\<lambda>k. Fin (1 / 2)) [(Fin 1, Fin 2, Fin 3)] [1] [] (Some chainA)
     = Inr ([(Fin 1, Fin 2, Fin 3)], Some [0])"
proof -
  have 1: "computeAtomMapping
     \<lparr>atoms = [(Fin 1, Fin 2, Fin 3)], elementIndexes = [1], bonds = [], atomMapping = None\<rparr> chainA
     = Inr [0]"
    by code_simp
  have 2: "length (matchedPairs [(Fin 1, Fin 2, Fin 3)] (atoms chainA) [0]) = 1"
    by (simp add: matchedPairs_def)
  show ?thesis
    using 1 2 alignment_below_three_pairs [of "\<lambda>k. Fin (1 / 2)" "[]" "[(Fin 1, Fin 2, Fin 3)]"
        "[1]" "[]" chainA "[0]"]
    by simp
qed

section \<open>The normalizer\<close>

lemma foldl_jmin_Fin: "foldl jmin (Fin a) (map Fin xs) = Fin (foldl min a xs)"
  by (induction xs arbitrary: a) (auto simp: min_def)

lemma foldl_jmax_Fin: "foldl jmax (Fin a) (map Fin xs) = Fin (foldl max a xs)"
  by (induction xs arbitrary: a) (auto simp: max_def)

lemma foldl_min_Min: "foldl min a xs = Min (set (a # xs))"
  unfolding Min.set_eq_fold foldl_conv_fold by (simp add: min.commute)

lemma foldl_max_Max: "foldl max a xs = Max (set (a # xs))"
  unfolding Max.set_eq_fold foldl_conv_fold by (simp add: max.commute)

lemma Math_min_Fin: "xs \<noteq> [] \<Longrightarrow> Math_min (map Fin xs) = Fin (Min (set xs))"
  by (cases xs) (simp_all add: Math_min_def foldl_jmin_Fin foldl_min_Min del: set_simps)

lemma Math_max_Fin: "xs \<noteq> [] \<Longrightarrow> Math_max (map Fin xs) = Fin (Max (set xs))"
  by (cases xs) (simp_all add: Math_max_def foldl_jmax_Fin foldl_max_Max del: set_simps)

lemma boxMin_fin3:
  assumes "pts \<noteq> []"
  shows "boxMin (map fin3 pts) = (Fin (lo px pts), Fin (lo py pts), Fin (lo pz pts))"
proof -
  have "map fst (map fin3 pts) = map Fin (map px pts)"
    "map (\<lambda>a. fst (snd a)) (map fin3 pts) = map Fin (map py pts)"
    "map (\<lambda>a. snd (snd a)) (map fin3 pts) = map Fin (map pz pts)"
    by (simp_all add: fin3_def px_def py_def pz_def)
  then show ?thesis
    using assms by (simp add: boxMin_def Math_min_Fin lo_def del: map_map)
qed

lemma boxMax_fin3:
  assumes "pts \<noteq> []"
  shows "boxMax (map fin3 pts) = (Fin (hi px pts), Fin (hi py pts), Fin (hi pz pts))"
proof -
  have "map fst (map fin3 pts) = map Fin (map px pts)"
    "map (\<lambda>a. fst (snd a)) (map fin3 pts) = map Fin (map py pts)"
    "map (\<lambda>a. snd (snd a)) (map fin3 pts) = map Fin (map pz pts)"
    by (simp_all add: fin3_def px_def py_def pz_def)
  then show ?thesis
    using assms by (simp add: boxMax_def Math_max_Fin hi_def del: map_map)
qed

lemma boxCenter_fin3:
  "pts \<noteq> [] \<Longrightarrow> boxCenter (map fin3 pts) = (Fin (mid px pts), Fin (mid py pts), Fin (mid pz pts))"
  by (simp add: boxCenter_def boxMin_fin3 boxMax_fin3 vadd_def vmap_def mid_def)

lemma normScale_fin3: "pts \<noteq> [] \<Longrightarrow> normScale (map fin3 pts) = Fin (spec_scale pts)"
  by (simp add: normScale_def boxSize_def boxMin_fin3 boxMax_fin3 vsub_def Math_max_def jgt_def
      spec_scale_def maxExtent_def max_def)

lemma normalizeAtoms_fin3:
  "pts \<noteq> [] \<Longrightarrow> normalizeAtoms (map fin3 pts) = map fin3 (spec_normalized pts)"
  by (simp add: normalizeAtoms_def boxCenter_fin3 normScale_fin3 spec_normalized_def fin3_def
      vsub_def vmap_def px_def py_def pz_def Let_def)

lemma spec_scale_pos: "0 < spec_scale pts" "spec_scale pts \<le> 1"
  by (auto simp: spec_scale_def)

lemma lo_hi_normalized:
  assumes "pts \<noteq> []" and f: "\<And>p. f (g p) = (f p - c) * s" and s: "0 \<le> s"
  shows "lo f (map g pts) = (lo f pts - c) * s" "hi f (map g pts) = (hi f pts - c) * s"
proof -
  have m: "mono (\<lambda>x::real. (x - c) * s)"
    using s by (auto intro!: monoI mult_right_mono)
  have fin: "finite (f ` set pts)" "f ` set pts \<noteq> {}" using assms(1) by auto
  have img: "f ` set (map g pts) = (\<lambda>x. (x - c) * s) ` (f ` set pts)"
    by (auto simp: f image_iff)
  show "lo f (map g pts) = (lo f pts - c) * s"
    unfolding lo_def img using mono_Min_commute[OF m fin] by simp
  show "hi f (map g pts) = (hi f pts - c) * s"
    unfolding hi_def img using mono_Max_commute[OF m fin] by simp
qed

lemma lo_le_hi: "pts \<noteq> [] \<Longrightarrow> lo f pts \<le> hi f pts"
  by (simp add: lo_def hi_def)

lemma extent_scaled: 
  assumes "0 \<le> e" "e \<le> maxExtent pts"
  shows "e * spec_scale pts \<le> 1"
proof (cases "1 < maxExtent pts")
  case True
  then have "e * spec_scale pts = e / maxExtent pts" by (simp add: spec_scale_def)
  also have "\<dots> \<le> 1" using assms True by simp
  finally show ?thesis .
next
  case False
  then show ?thesis using assms by (simp add: spec_scale_def)
qed

lemma centered_sum:
  fixes l h s :: real
  assumes "l' = (l - m) * s" "h' = (h - m) * s" "m = (l + h) / 2"
  shows "l' + h' = 0" "h' - l' = (h - l) * s"
  by (simp_all add: assms algebra_simps)

text \<open>
  C4. For every non-empty list of points with real coordinates the normalizing block
  of the code computes the scale and the points of the specification: one scale factor
  for the three axes, equal to \<open>1\<close> when the largest dimension of the bounding box is
  at most \<open>1\<close> and never above \<open>1\<close>; the bounding box of the result has its midpoint
  at the origin on every axis and its largest dimension is at most \<open>1\<close>.
\<close>

theorem normalizer:
  assumes "pts \<noteq> []"
  shows "normScale (map fin3 pts) = Fin (spec_scale pts)
   \<and> (maxExtent pts \<le> 1 \<longrightarrow> spec_scale pts = 1) \<and> 0 < spec_scale pts \<and> spec_scale pts \<le> 1
   \<and> normalizeAtoms (map fin3 pts) = map fin3 (spec_normalized pts)
   \<and> lo px (spec_normalized pts) + hi px (spec_normalized pts) = 0
   \<and> lo py (spec_normalized pts) + hi py (spec_normalized pts) = 0
   \<and> lo pz (spec_normalized pts) + hi pz (spec_normalized pts) = 0
   \<and> maxExtent (spec_normalized pts) \<le> 1
   \<and> maxExtent (spec_normalized pts) = maxExtent pts * spec_scale pts"
proof -
  let ?s = "spec_scale pts"
  let ?g = "\<lambda>p. ((px p - mid px pts) * ?s, (py p - mid py pts) * ?s, (pz p - mid pz pts) * ?s)"
  have s: "0 \<le> ?s" using spec_scale_pos(1)[of pts] by simp
  have x: "lo px (map ?g pts) = (lo px pts - mid px pts) * ?s" "hi px (map ?g pts) = (hi px pts - mid px pts) * ?s"
    by (rule lo_hi_normalized[OF assms _ s], simp add: px_def)+
  have y: "lo py (map ?g pts) = (lo py pts - mid py pts) * ?s" "hi py (map ?g pts) = (hi py pts - mid py pts) * ?s"
    by (rule lo_hi_normalized[OF assms _ s], simp add: py_def)+
  have z: "lo pz (map ?g pts) = (lo pz pts - mid pz pts) * ?s" "hi pz (map ?g pts) = (hi pz pts - mid pz pts) * ?s"
    by (rule lo_hi_normalized[OF assms _ s], simp add: pz_def)+
  have n: "spec_normalized pts = map ?g pts" by (simp add: spec_normalized_def)
  note cx = centered_sum[OF x mid_def]
  note cy = centered_sum[OF y mid_def]
  note cz = centered_sum[OF z mid_def]
  have me: "maxExtent (spec_normalized pts) = maxExtent pts * ?s"
    unfolding maxExtent_def n cx(2) cy(2) cz(2)
    using s by (simp add: max_mult_distrib_right)
  have "0 \<le> maxExtent pts"
    using lo_le_hi[OF assms, of px] by (simp add: maxExtent_def max_def)
  then have "maxExtent pts * ?s \<le> 1"
    by (rule extent_scaled) simp
  then show ?thesis
    using assms cx(1) cy(1) cz(1) me spec_scale_pos[of pts]
    by (simp add: normScale_fin3 normalizeAtoms_fin3 n) (simp add: spec_scale_def)
qed

theorem normalizer_witness:
  "normScale [(Fin 0, Fin 0, Fin 0), (Fin 2, Fin 4, Fin 0)] = Fin (1 / 4)
   \<and> normalizeAtoms [(Fin 0, Fin 0, Fin 0), (Fin 2, Fin 4, Fin 0)]
     = [(Fin (- 1 / 4), Fin (- 1 / 2), Fin 0), (Fin (1 / 4), Fin (1 / 2), Fin 0)]"
proof -
  have e: "maxExtent [(0, 0, 0), (2, 4, 0)] = 4"
    by (simp add: maxExtent_def lo_def hi_def px_def py_def pz_def)
  have m: "mid px [(0, 0, 0), (2, 4, 0)] = 1" "mid py [(0, 0, 0), (2, 4, 0)] = 2"
    "mid pz [(0, 0, 0), (2, 4, 0)] = 0"
    by (simp_all add: mid_def lo_def hi_def px_def py_def pz_def)
  show ?thesis
    using normalizer [of "[(0, 0, 0), (2, 4, 0)]"]
    by (simp add: fin3_def spec_scale_def spec_normalized_def e m px_def py_def pz_def)
qed

section \<open>The transition controller\<close>

subsection \<open>The sprite viewer\<close>

lemma collect_Inr:
  "(\<forall>x \<in> set xs. \<exists>v. x = Inr v) \<Longrightarrow> \<exists>vs. collect xs = Inr vs"
  by (induction xs) auto

lemma collect_nth:
  "collect xs = Inr vs \<Longrightarrow> length vs = length xs \<and> (\<forall>i<length xs. xs ! i = Inr (vs ! i))"
proof (induction xs arbitrary: vs)
  case Nil
  then show ?case by simp
next
  case (Cons x xs)
  from Cons.prems obtain v ws where x: "x = Inr v" and ws: "collect xs = Inr ws" and vs: "vs = v # ws"
    by (auto split: sum.splits)
  from Cons.IH[OF ws] show ?case
    by (auto simp: x vs nth_Cons split: nat.splits)
qed

lemma retarget_returns:
  assumes "mappingInRange tgt"
  shows "\<exists>s'. retarget tgt i s = Inr s'"
proof (cases "atomMapping tgt")
  case None
  then show ?thesis by (simp add: retarget_def Let_def)
next
  case (Some am)
  show ?thesis
  proof (cases "i < length am")
    case False
    then show ?thesis by (simp add: retarget_def Let_def Some nth_opt_def)
  next
    case True
    then have "- 1 \<le> am ! i"
      using assms by (simp add: mappingInRange_def Some list_all_length)
    then show ?thesis
      using True by (auto simp: retarget_def Let_def Some nth_opt_def validIndex_def)
  qed
qed

lemma retarget_start:
  assumes "retarget tgt i s = Inr s'"
  shows "start s' = position s" "position s' = position s"
    "fadeStart s' = opacity s" "opacity s' = opacity s"
  using assms
  by (auto simp: retarget_def Let_def split: option.splits if_splits)

lemma retargetLine_valid:
  assumes "validBonds tgt"
  shows "\<exists>l'. retargetLine tgt i l = Inr l'"
proof (cases "i \<ge> length (bonds tgt)")
  case True
  then show ?thesis by (simp add: retargetLine_def)
next
  case False
  then have "bonds tgt ! i \<in> set (bonds tgt)" by simp
  with assms have "validIndex (length (atoms tgt)) (bfrom (bonds tgt ! i)) \<noteq> None"
    "validIndex (length (atoms tgt)) (bto (bonds tgt ! i)) \<noteq> None"
    by (auto simp: validBonds_def list_all_iff)
  then show ?thesis
    using False by (auto simp: retargetLine_def Let_def)
qed

lemma transition_returns:
  assumes "idx < length (POSITION_SETS v)" "validBonds (POSITION_SETS v ! idx)"
    "mappingInRange (POSITION_SETS v ! idx)"
  shows "\<exists>v'. transition idx v = Inr v'"
proof -
  let ?tgt = "POSITION_SETS v ! idx"
  have "\<forall>x \<in> set (map (\<lambda>p. retarget ?tgt (fst p) (snd p))
                    (zip [0..<length (sharedSprites v)] (sharedSprites v))). \<exists>s. x = Inr s"
    using retarget_returns[OF assms(3)] by auto
  then obtain ss where ss: "collect (map (\<lambda>p. retarget ?tgt (fst p) (snd p))
                    (zip [0..<length (sharedSprites v)] (sharedSprites v))) = Inr ss"
    using collect_Inr by blast
  have "\<forall>x \<in> set (map (\<lambda>p. retargetLine ?tgt (fst p) (snd p))
                    (zip [0..<length (sharedBondLines v)] (sharedBondLines v))). \<exists>l. x = Inr l"
    using retargetLine_valid[OF assms(2)] by auto
  then obtain ls where "collect (map (\<lambda>p. retargetLine ?tgt (fst p) (snd p))
                    (zip [0..<length (sharedBondLines v)] (sharedBondLines v))) = Inr ls"
    using collect_Inr by blast
  then show ?thesis
    using assms(1) ss by (simp add: transition_def nth_opt_def)
qed

lemma transition_sprites:
  assumes "transition idx v = Inr v'"
  shows "progress v' = Fin 0" "animating v'"
    "map start (sharedSprites v') = map position (sharedSprites v)"
    "map position (sharedSprites v') = map position (sharedSprites v)"
proof -
  from assms obtain tgt ss ls where tgt: "nth_opt (POSITION_SETS v) idx = Some tgt"
    and ss: "collect (map (\<lambda>p. retarget tgt (fst p) (snd p))
                    (zip [0..<length (sharedSprites v)] (sharedSprites v))) = Inr ss"
    and v': "v' = v\<lparr>sharedSprites := ss, sharedBondLines := ls, progress := Fin 0,
                     animating := True\<rparr>"
    by (auto simp: transition_def split: option.splits sum.splits)
  from collect_nth[OF ss] have len: "length ss = length (sharedSprites v)"
    and nth: "\<And>i. i < length (sharedSprites v) \<Longrightarrow> retarget tgt i (sharedSprites v ! i) = Inr (ss ! i)"
    by auto
  show "progress v' = Fin 0" "animating v'" by (simp_all add: v')
  show "map start (sharedSprites v') = map position (sharedSprites v)"
    by (rule nth_equalityI) (simp_all add: v' len retarget_start(1)[OF nth])
  show "map position (sharedSprites v') = map position (sharedSprites v)"
    by (rule nth_equalityI) (simp_all add: v' len retarget_start(2)[OF nth])
qed

lemma animate_positions:
  assumes "animating v"
  shows "map position (sharedSprites (animate v)) =
     map (\<lambda>s. lerpVectors (start s) (target s) (ease (jmin (progress v + Fin (2 / 100)) (Fin 1)))) (sharedSprites v)"
  using assms by (simp add: animate_def Let_def)

lemma animate_POSITION_SETS: "POSITION_SETS (animate v) = POSITION_SETS v"
  by (simp add: animate_def Let_def)

subsection \<open>The instanced-mesh viewer\<close>

lemma save_fold:
  "atomStart (foldl (\<lambda>m i. m\<lparr>atomStart := (atomStart m)(i \<mapsto> readPos m i)\<rparr>) mesh [0..<n]) i
     = (if i < n then Some (readPos mesh i) else atomStart mesh i)
   \<and> instancePos (foldl (\<lambda>m i. m\<lparr>atomStart := (atomStart m)(i \<mapsto> readPos m i)\<rparr>) mesh [0..<n]) = instancePos mesh
   \<and> count (foldl (\<lambda>m i. m\<lparr>atomStart := (atomStart m)(i \<mapsto> readPos m i)\<rparr>) mesh [0..<n]) = count mesh"
  by (induction n) (auto simp: readPos_def)

lemma savePositions_start:
  "atomStart (savePositions mesh) i = (if i < count mesh then Some (readPos mesh i) else atomStart mesh i)"
  by (simp add: savePositions_def save_fold)

lemma targetStep_start: "atomStart (fst (targetStep tgt st i)) = atomStart (fst st)"
  by (cases st) (simp add: targetStep_def writePos_def split: option.splits)

lemma target_fold_start: "atomStart (fst (foldl (targetStep tgt) st is)) = atomStart (fst st)"
  by (induction "is" arbitrary: st) (simp_all add: targetStep_start)

lemma setTargets_start: "atomStart (setTargets tgt mesh) = atomStart mesh"
  using target_fold_start[of tgt "(mesh, 0)" "[0..<maxPoints]"]
  by (simp add: setTargets_def case_prod_beta)

lemma transition_m_start:
  assumes "transition_m idx v = Inr v'"
  shows "progress_m v' = Fin 0" "animating_m v'"
    "length (sharedAtomMeshes v') = length (sharedAtomMeshes v)"
    "k < length (sharedAtomMeshes v) \<Longrightarrow> i < count (sharedAtomMeshes v ! k) \<Longrightarrow>
       atomStart (sharedAtomMeshes v' ! k) i = Some (readPos (sharedAtomMeshes v ! k) i)"
proof -
  from assms obtain tgt where v': "v' = v\<lparr>sharedAtomMeshes := map (setTargets tgt) (map savePositions (sharedAtomMeshes v)),
      progress_m := Fin 0, animating_m := True, currentSet := idx\<rparr>"
    by (auto simp: transition_m_def Let_def split: option.splits if_splits)
  show "progress_m v' = Fin 0" "animating_m v'" "length (sharedAtomMeshes v') = length (sharedAtomMeshes v)"
    by (simp_all add: v')
  show "k < length (sharedAtomMeshes v) \<Longrightarrow> i < count (sharedAtomMeshes v ! k) \<Longrightarrow>
       atomStart (sharedAtomMeshes v' ! k) i = Some (readPos (sharedAtomMeshes v ! k) i)"
    by (simp add: v' setTargets_start savePositions_start)
qed

lemma lerpStep_fields:
  "count (lerpStep t mesh i) = count mesh"
  "atomTarget (lerpStep t mesh i) = atomTarget mesh"
  "length (instancePos (lerpStep t mesh i)) = length (instancePos mesh)"
  "j \<noteq> i \<Longrightarrow> atomStart (lerpStep t mesh i) j = atomStart mesh j"
  "j \<noteq> i \<Longrightarrow> readPos (lerpStep t mesh i) j = readPos mesh j"
  "readPos (lerpStep t mesh i) i =
     (if i < length (instancePos mesh) then lerpVectors (startOf mesh i) (targetOf mesh i) t else zeroVec)"
  by (auto simp: lerpStep_def Let_def writePos_def readPos_def split: option.splits)

lemma lerp_fold:
  "count (foldl (lerpStep t) mesh [0..<n]) = count mesh
   \<and> atomTarget (foldl (lerpStep t) mesh [0..<n]) = atomTarget mesh
   \<and> length (instancePos (foldl (lerpStep t) mesh [0..<n])) = length (instancePos mesh)
   \<and> (\<forall>j\<ge>n. atomStart (foldl (lerpStep t) mesh [0..<n]) j = atomStart mesh j)
   \<and> (\<forall>j. readPos (foldl (lerpStep t) mesh [0..<n]) j =
          (if j < n \<and> j < length (instancePos mesh)
           then lerpVectors (startOf mesh j) (targetOf mesh j) t
           else if j < n then zeroVec else readPos mesh j))"
proof (induction n)
  case 0
  then show ?case by simp
next
  case (Suc n)
  let ?m = "foldl (lerpStep t) mesh [0..<n]"
  from Suc have c: "count ?m = count mesh" and tg: "atomTarget ?m = atomTarget mesh"
    and len: "length (instancePos ?m) = length (instancePos mesh)"
    and st: "\<forall>j\<ge>n. atomStart ?m j = atomStart mesh j"
    and rp: "\<forall>j. readPos ?m j =
          (if j < n \<and> j < length (instancePos mesh)
           then lerpVectors (startOf mesh j) (targetOf mesh j) t
           else if j < n then zeroVec else readPos mesh j)"
    by blast+
  have so1: "startOf ?m n = startOf mesh n"
    using st by (simp add: startOf_def)
  have so: "startOf ?m n = startOf mesh n" "targetOf ?m n = targetOf mesh n"
    using so1 tg by (simp_all add: targetOf_def split: option.splits)
  have "readPos (lerpStep t ?m n) j =
          (if j < Suc n \<and> j < length (instancePos mesh)
           then lerpVectors (startOf mesh j) (targetOf mesh j) t
           else if j < Suc n then zeroVec else readPos mesh j)" for j
  proof (cases "j = n")
    case True
    then show ?thesis by (simp add: lerpStep_fields(6) len so)
  next
    case False
    then show ?thesis using rp by (auto simp: lerpStep_fields(5) less_Suc_eq)
  qed
  moreover have "\<forall>j\<ge>Suc n. atomStart (lerpStep t ?m n) j = atomStart mesh j"
    using st by (simp add: lerpStep_fields(4))
  ultimately show ?case
    using c tg len by (simp add: lerpStep_fields)
qed

lemma animateAtoms_meshes:
  assumes "animating_m v" "k < length (sharedAtomMeshes v)"
  shows "count (sharedAtomMeshes (animateAtoms v) ! k) = count (sharedAtomMeshes v ! k)"
    "i < count (sharedAtomMeshes v ! k) \<Longrightarrow> i < length (instancePos (sharedAtomMeshes v ! k)) \<Longrightarrow>
     readPos (sharedAtomMeshes (animateAtoms v) ! k) i =
       lerpVectors (startOf (sharedAtomMeshes v ! k) i) (targetOf (sharedAtomMeshes v ! k) i)
         (ease (jmin (progress_m v + Fin (2 / 100)) (Fin 1)))"
  using assms lerp_fold[of "ease (jmin (progress_m v + Fin (2 / 100)) (Fin 1))" "sharedAtomMeshes v ! k" "count (sharedAtomMeshes v ! k)"]
  by (simp_all add: animateAtoms_def Let_def)

lemma animateAtoms_length: "length (sharedAtomMeshes (animateAtoms v)) = length (sharedAtomMeshes v)"
  by (simp add: animateAtoms_def Let_def)

lemma transition_m_returns:
  "idx < length (POSITION_SETS_m v) \<Longrightarrow> validBonds (POSITION_SETS_m v ! idx) \<Longrightarrow> \<exists>v'. transition_m idx v = Inr v'"
  by (auto simp: transition_m_def nth_opt_def Let_def bondsSpread_def validBonds_def list_all_iff dest: in_set_takeD)


lemma animate_then_transition_m:
  assumes "animating_m w0" "transition_m idx (animateAtoms w0) = Inr w'"
    "k < length (sharedAtomMeshes w0)" "i < count (sharedAtomMeshes w0 ! k)"
    "i < length (instancePos (sharedAtomMeshes w0 ! k))"
  shows "atomStart (sharedAtomMeshes w' ! k) i =
     Some (lerpVectors (startOf (sharedAtomMeshes w0 ! k) i) (targetOf (sharedAtomMeshes w0 ! k) i)
             (ease (jmin (progress_m w0 + Fin (2 / 100)) (Fin 1))))"
proof -
  have k: "k < length (sharedAtomMeshes (animateAtoms w0))"
    using assms(3) by (simp add: animateAtoms_length)
  have i: "i < count (sharedAtomMeshes (animateAtoms w0) ! k)"
    using assms(4) by (simp add: animateAtoms_meshes(1)[OF assms(1,3)])
  show ?thesis
    using transition_m_start(4)[OF assms(2) k i] animateAtoms_meshes(2)[OF assms(1,3,4,5)]
    by simp
qed

subsection \<open>Both viewers\<close>

text \<open>
  In both viewers \<open>transition\<close> returns for an index of the sequence whose molecule has
  valid bonds (in the sprite viewer, also no mapping entry below \<open>-1\<close>), and when it
  returns the progress is \<open>0\<close> and the controller is animating. In the sprite viewer the
  start of every sprite is the position the sprite had at the call, and the positions
  are not moved; called after a frame of \<open>animate\<close> in a running transition, the new start
  of every sprite is the position that frame interpolated between the old start and the
  old target. In the instanced-mesh viewer the start of every instance below \<open>count\<close> is
  the position read back from the mesh at the call; called after the atoms block of a
  frame in a running transition, the new start of every instance the buffer has room
  for is the position that frame interpolated between the old start and the old target.
\<close>

theorem transition_start_positions:
  "(idx < length (POSITION_SETS v) \<and> validBonds (POSITION_SETS v ! idx)
      \<and> mappingInRange (POSITION_SETS v ! idx)
      \<longrightarrow> (\<exists>v'. transition idx v = Inr v'))
   \<and> (transition idx v = Inr v' \<longrightarrow>
        progress v' = Fin 0 \<and> animating v'
        \<and> map start (sharedSprites v') = map position (sharedSprites v)
        \<and> map position (sharedSprites v') = map position (sharedSprites v))
   \<and> (animating v0 \<and> transition idx (animate v0) = Inr v' \<longrightarrow>
        map start (sharedSprites v') =
          map (\<lambda>s. lerpVectors (start s) (target s) (ease (jmin (progress v0 + Fin (2 / 100)) (Fin 1))))
            (sharedSprites v0))
   \<and> (idx < length (POSITION_SETS_m w) \<and> validBonds (POSITION_SETS_m w ! idx)
      \<longrightarrow> (\<exists>w'. transition_m idx w = Inr w'))
   \<and> (transition_m idx w = Inr w' \<longrightarrow>
        progress_m w' = Fin 0 \<and> animating_m w'
        \<and> (\<forall>k<length (sharedAtomMeshes w). \<forall>i<count (sharedAtomMeshes w ! k).
              atomStart (sharedAtomMeshes w' ! k) i = Some (readPos (sharedAtomMeshes w ! k) i)))
   \<and> (animating_m w0 \<and> transition_m idx (animateAtoms w0) = Inr w' \<longrightarrow>
        (\<forall>k<length (sharedAtomMeshes w0). \<forall>i<count (sharedAtomMeshes w0 ! k).
           i < length (instancePos (sharedAtomMeshes w0 ! k)) \<longrightarrow>
           atomStart (sharedAtomMeshes w' ! k) i =
             Some (lerpVectors (startOf (sharedAtomMeshes w0 ! k) i)
                     (targetOf (sharedAtomMeshes w0 ! k) i)
                     (ease (jmin (progress_m w0 + Fin (2 / 100)) (Fin 1))))))"
proof -
  have 1: "idx < length (POSITION_SETS v) \<and> validBonds (POSITION_SETS v ! idx)
      \<and> mappingInRange (POSITION_SETS v ! idx)
      \<longrightarrow> (\<exists>v'. transition idx v = Inr v')"
    using transition_returns[of idx v] by blast
  have 2: "transition idx v = Inr v' \<longrightarrow>
        progress v' = Fin 0 \<and> animating v'
        \<and> map start (sharedSprites v') = map position (sharedSprites v)
        \<and> map position (sharedSprites v') = map position (sharedSprites v)"
    using transition_sprites[of idx v v'] by blast
  have 3: "animating v0 \<and> transition idx (animate v0) = Inr v' \<longrightarrow>
        map start (sharedSprites v') =
          map (\<lambda>s. lerpVectors (start s) (target s) (ease (jmin (progress v0 + Fin (2 / 100)) (Fin 1))))
            (sharedSprites v0)"
    using transition_sprites(3)[of idx "animate v0" v'] animate_positions[of v0] by auto
  have 4: "idx < length (POSITION_SETS_m w) \<and> validBonds (POSITION_SETS_m w ! idx)
      \<longrightarrow> (\<exists>w'. transition_m idx w = Inr w')"
    using transition_m_returns[of idx w] by blast
  have 5: "transition_m idx w = Inr w' \<longrightarrow>
        progress_m w' = Fin 0 \<and> animating_m w'
        \<and> (\<forall>k<length (sharedAtomMeshes w). \<forall>i<count (sharedAtomMeshes w ! k).
              atomStart (sharedAtomMeshes w' ! k) i = Some (readPos (sharedAtomMeshes w ! k) i))"
    using transition_m_start[of idx w w'] by blast
  have 6: "animating_m w0 \<and> transition_m idx (animateAtoms w0) = Inr w' \<longrightarrow>
        (\<forall>k<length (sharedAtomMeshes w0). \<forall>i<count (sharedAtomMeshes w0 ! k).
           i < length (instancePos (sharedAtomMeshes w0 ! k)) \<longrightarrow>
           atomStart (sharedAtomMeshes w' ! k) i =
             Some (lerpVectors (startOf (sharedAtomMeshes w0 ! k) i)
                     (targetOf (sharedAtomMeshes w0 ! k) i)
                     (ease (jmin (progress_m w0 + Fin (2 / 100)) (Fin 1)))))"
    using animate_then_transition_m[of w0 idx w'] by blast
  from 1 2 3 4 5 6 show ?thesis by blast
qed

theorem transition_start_positions_witness:
  "(\<exists>v'. transition 0 (animate midFlight) = Inr v' \<and> progress v' = Fin 0
     \<and> map start (sharedSprites v') = [(Fin (16 / 5), Fin 0, Fin 0)]
     \<and> map start (sharedSprites midFlight) = [(Fin 0, Fin 0, Fin 0)])
   \<and> (\<exists>w'. transition_m 0 (animateAtoms midFlightMesh) = Inr w' \<and> progress_m w' = Fin 0
     \<and> atomStart (sharedAtomMeshes w' ! 0) 0 = Some (Fin (16 / 5), Fin 0, Fin 0)
     \<and> atomStart (sharedAtomMeshes midFlightMesh ! 0) 0 = Some (Fin 0, Fin 0, Fin 0))"
proof -
  note T = transition_start_positions
  have a: "animating midFlight"
    by (simp add: midFlight_def)
  have p: "0 < length (POSITION_SETS (animate midFlight))
      \<and> validBonds (POSITION_SETS (animate midFlight) ! 0)
      \<and> mappingInRange (POSITION_SETS (animate midFlight) ! 0)"
    by (simp add: animate_POSITION_SETS) (simp add: midFlight_def validBonds_def mappingInRange_def)
  from T [where idx = 0 and v = "animate midFlight"] p
  obtain v' where t: "transition 0 (animate midFlight) = Inr v'"
    by blast
  from T [where idx = 0 and v = "animate midFlight" and v' = v' and ?v0.0 = midFlight] t a
  have 1: "progress v' = Fin 0"
    and 2: "map start (sharedSprites v') =
          map (\<lambda>s. lerpVectors (start s) (target s)
                 (ease (jmin (progress midFlight + Fin (2 / 100)) (Fin 1))))
            (sharedSprites midFlight)"
    by blast+
  have "map start (sharedSprites v') = [(Fin (16 / 5), Fin 0, Fin 0)]"
    unfolding 2 by (simp add: midFlight_def lerpVectors_def ease_Fin)
  with t 1 have A: "\<exists>v'. transition 0 (animate midFlight) = Inr v' \<and> progress v' = Fin 0
     \<and> map start (sharedSprites v') = [(Fin (16 / 5), Fin 0, Fin 0)]
     \<and> map start (sharedSprites midFlight) = [(Fin 0, Fin 0, Fin 0)]"
    by (simp add: midFlight_def)
  have am: "animating_m midFlightMesh"
    by (simp add: midFlightMesh_def)
  have pm: "0 < length (POSITION_SETS_m (animateAtoms midFlightMesh))
      \<and> validBonds (POSITION_SETS_m (animateAtoms midFlightMesh) ! 0)"
    by (simp add: animateAtoms_def Let_def midFlightMesh_def validBonds_def)
  from T [where idx = 0 and w = "animateAtoms midFlightMesh"] pm
  obtain w' where tm: "transition_m 0 (animateAtoms midFlightMesh) = Inr w'"
    by blast
  from T [where idx = 0 and w = "animateAtoms midFlightMesh" and w' = w' and ?w0.0 = midFlightMesh] tm am
  have m1: "progress_m w' = Fin 0"
    and m2: "\<forall>k<length (sharedAtomMeshes midFlightMesh). \<forall>i<count (sharedAtomMeshes midFlightMesh ! k).
           i < length (instancePos (sharedAtomMeshes midFlightMesh ! k)) \<longrightarrow>
           atomStart (sharedAtomMeshes w' ! k) i =
             Some (lerpVectors (startOf (sharedAtomMeshes midFlightMesh ! k) i)
                     (targetOf (sharedAtomMeshes midFlightMesh ! k) i)
                     (ease (jmin (progress_m midFlightMesh + Fin (2 / 100)) (Fin 1))))"
    by blast+
  have "atomStart (sharedAtomMeshes w' ! 0) 0 =
      Some (lerpVectors (startOf (sharedAtomMeshes midFlightMesh ! 0) 0)
                     (targetOf (sharedAtomMeshes midFlightMesh ! 0) 0)
                     (ease (jmin (progress_m midFlightMesh + Fin (2 / 100)) (Fin 1))))"
    using m2 by (simp add: midFlightMesh_def)
  then have "atomStart (sharedAtomMeshes w' ! 0) 0 = Some (Fin (16 / 5), Fin 0, Fin 0)"
    by (simp add: midFlightMesh_def startOf_def targetOf_def lerpVectors_def ease_Fin)
  with tm m1 have B: "\<exists>w'. transition_m 0 (animateAtoms midFlightMesh) = Inr w' \<and> progress_m w' = Fin 0
     \<and> atomStart (sharedAtomMeshes w' ! 0) 0 = Some (Fin (16 / 5), Fin 0, Fin 0)
     \<and> atomStart (sharedAtomMeshes midFlightMesh ! 0) 0 = Some (Fin 0, Fin 0, Fin 0)"
    by (simp add: midFlightMesh_def)
  from A B show ?thesis by blast
qed

subsection \<open>An instance past the end of the buffer\<close>

lemma parse_oneC: "parseSdf oneCarbonSdf = Inr ([(Fin 0, Fin 0, Fin 0)], [1], [])"
  by code_simp

lemma parse_twoC:
  "parseSdf twoCarbonSdf
     = Inr ([(Fin (- 1 / 2), Fin 0, Fin 0), (Fin (1 / 2), Fin 0, Fin 0)], [1, 1], [])"
  by code_simp

lemma normalize_twoC:
  "normalizeAtoms [(Fin (- 1 / 2), Fin 0, Fin 0), (Fin (1 / 2), Fin 0, Fin 0)]
     = [(Fin (- 1 / 2), Fin 0, Fin 0), (Fin (1 / 2), Fin 0, Fin 0)]"
  by code_simp

lemma map_twoC:
  "computeAtomMapping
     \<lparr>atoms = [(Fin (- 1 / 2), Fin 0, Fin 0), (Fin (1 / 2), Fin 0, Fin 0)],
      elementIndexes = [1, 1], bonds = [], atomMapping = None\<rparr> oneC = Inr [0, - 1]"
  by code_simp

lemma load_carbons:
  "loadMoleculesOnce [] [(Body oneCarbonSdf, rnd), (Body twoCarbonSdf, rnd)] = ([oneC, twoC], None)"
proof -
  have 1: "getMoleculePoints rnd (Body oneCarbonSdf) None = Inr oneC"
    by (simp add: getMoleculePoints_Body parse_oneC alignToPrevious_def normalize_origin oneC_def)
  have "alignToPrevious rnd [(Fin (- 1 / 2), Fin 0, Fin 0), (Fin (1 / 2), Fin 0, Fin 0)] [1, 1] []
          (Some oneC)
        = Inr ([(Fin (- 1 / 2), Fin 0, Fin 0), (Fin (1 / 2), Fin 0, Fin 0)], Some [0, - 1])"
    apply (simp only: alignToPrevious_def option.case map_twoC sum.case)
    apply (simp add: matchedPairs_def)
    done
  then have 2: "getMoleculePoints rnd (Body twoCarbonSdf) (Some oneC) = Inr twoC"
    apply (simp only: getMoleculePoints_Body parse_twoC sum.case fst_conv snd_conv normalize_twoC)
    apply (simp add: twoC_def)
    done
  show ?thesis
    by (simp add: loadMoleculesOnce_def 1 2)
qed

lemmas run_defs = init_m_def oneC_def twoC_def validBonds_def setupMeshes_def elementCounts_def
  countStep_def elementName_def ELEMENTS_def newMesh_def placeAtom_def writePos_def readPos_def
  transition_m_def nth_opt_def Let_def bondsSpread_def savePositions_def setTargets_def
  targetStep_def mappedIndex_def validIndex_def maxPoints_def maxBonds_def
  animate_m_def animateAtoms_def lerpStep_def startOf_def targetOf_def lerpVectors_def
  bondBlockReturns_def spreads_def jge_def nextTransition_def zeroVec_def ease_def

text \<open>
  C8. The second viewer, on a sequence of a molecule of one carbon atom and a molecule
  of two (what the two records load as): the mesh of carbon gets a buffer with room for
  one instance. After the set-up with the first transition, fifty frames and the
  transition to the second molecule, \<open>count\<close> is \<open>2\<close>. Twenty frames later the progress is
  \<open>0.4\<close> and the transition is running; the frames have moved the start of instance \<open>1\<close>
  (the vector that \<open>start.lerp\<close> changes and returns as the interpolated position) from
  the origin to more than \<open>0.46\<close> along \<open>x\<close>. The next transition reads the instance back
  from the buffer, which has no room for it, and the instance starts from the origin
  again.
\<close>

theorem transition_m_past_buffer:
  "\<exists>w1 w2 w3 q.
     loadMoleculesOnce [] [(Body oneCarbonSdf, rnd), (Body twoCarbonSdf, rnd)] = ([oneC, twoC], None)
     \<and> init_m [oneC, twoC] = Inr w1
     \<and> nextTransition ((animate_m ^^ 50) w1) = Inr w2
     \<and> progress_m ((animate_m ^^ 20) w2) = Fin (2 / 5)
     \<and> animating_m ((animate_m ^^ 20) w2)
     \<and> count (sharedAtomMeshes ((animate_m ^^ 20) w2) ! 0) = 2
     \<and> length (instancePos (sharedAtomMeshes ((animate_m ^^ 20) w2) ! 0)) = 1
     \<and> atomStart (sharedAtomMeshes ((animate_m ^^ 20) w2) ! 0) 1 = Some (Fin q, Fin 0, Fin 0)
     \<and> 23 / 50 < q
     \<and> nextTransition ((animate_m ^^ 20) w2) = Inr w3
     \<and> progress_m w3 = Fin 0
     \<and> atomStart (sharedAtomMeshes w3 ! 0) 1 = Some (Fin 0, Fin 0, Fin 0)"
proof -
  define w1 where "w1 = projr (init_m [oneC, twoC])"
  define s1 where "s1 = (animate_m ^^ 50) w1"
  define w2 where "w2 = projr (nextTransition s1)"
  define s2 where "s2 = (animate_m ^^ 20) w2"
  define w3 where "w3 = projr (nextTransition s2)"
  have "\<not> isl (init_m [oneC, twoC])"
    by (simp add: run_defs eval_nat_numeral)
  then have i: "init_m [oneC, twoC] = Inr w1"
    by (simp add: w1_def)
  have "\<not> isl (nextTransition s1)"
    unfolding s1_def w1_def by (simp add: run_defs eval_nat_numeral)
  then have n1: "nextTransition s1 = Inr w2"
    by (simp add: w2_def)
  have "map (\<lambda>w. (progress_m w, animating_m w, length (sharedAtomMeshes w),
                   count (sharedAtomMeshes w ! 0), length (instancePos (sharedAtomMeshes w ! 0)),
                   atomStart (sharedAtomMeshes w ! 0) 1, isl (nextTransition w))) [s2]
        = [(Fin (2 / 5), True, 1, 2, 1,
            Some (Fin (200302436366623707609185668965345817132084380528190401 /
                       433680868994201773602981120347976684570312500000000000), Fin 0, Fin 0),
            False)]"
    unfolding s2_def w2_def s1_def w1_def by (simp add: run_defs eval_nat_numeral)
  then have p: "progress_m s2 = Fin (2 / 5)" and a: "animating_m s2"
    and l: "length (sharedAtomMeshes s2) = 1" and c: "count (sharedAtomMeshes s2 ! 0) = 2"
    and b: "length (instancePos (sharedAtomMeshes s2 ! 0)) = 1"
    and q: "atomStart (sharedAtomMeshes s2 ! 0) 1 =
      Some (Fin (200302436366623707609185668965345817132084380528190401 /
                 433680868994201773602981120347976684570312500000000000), Fin 0, Fin 0)"
    and "\<not> isl (nextTransition s2)"
    by simp_all
  then have n2: "nextTransition s2 = Inr w3"
    by (simp add: w3_def)
  have t: "transition_m ((currentSet s2 + 1) mod length (POSITION_SETS_m s2)) s2 = Inr w3"
    using n2 by (simp add: nextTransition_def)
  have p3: "progress_m w3 = Fin 0"
    by (rule transition_m_start(1)[OF t])
  have "atomStart (sharedAtomMeshes w3 ! 0) 1 = Some (readPos (sharedAtomMeshes s2 ! 0) 1)"
    by (rule transition_m_start(4)[OF t]) (simp_all add: l c)
  then have s3: "atomStart (sharedAtomMeshes w3 ! 0) 1 = Some (Fin 0, Fin 0, Fin 0)"
    by (simp add: readPos_def b zeroVec_def)
  have "(23 :: real) / 50 < 200302436366623707609185668965345817132084380528190401 /
                 433680868994201773602981120347976684570312500000000000"
    by simp
  with load_carbons i n1 p a c b q n2 p3 s3 show ?thesis
    unfolding s2_def s1_def by blast
qed

text \<open>
  The progress. A frame of \<open>animate\<close> never lowers a progress in \<open>[0, 1]\<close> and never takes it
  above \<open>1\<close>: while animating it adds \<open>0.02\<close>, clamped to \<open>1\<close>, and the controller keeps
  animating only while the progress is below \<open>1\<close>.
\<close>

theorem animate_progress:
  assumes "progress v = Fin p" "0 \<le> p" "p \<le> 1"
  shows "\<exists>q. progress (animate v) = Fin q \<and> p \<le> q \<and> q \<le> 1
     \<and> (animating v \<longrightarrow> q = min (p + 1 / 50) 1)
     \<and> (animating (animate v) \<longrightarrow> animating v \<and> q < 1)"
  using assms by (auto simp: animate_def Let_def jge_def min_def)

theorem animate_progress_witness:
  "progress (animate midFlight) = Fin (2 / 5) \<and> animating (animate midFlight)"
  using animate_progress [of midFlight "38 / 100"]
  by (auto simp: midFlight_def animate_def Let_def jge_def)

end
